theory Spec2Isabelle
  imports Main "HOL-Library.Word" "HOL-Library.Product_Lexorder"
begin

unbundle bit_operations_syntax

section \<open>Strings and thrown values\<close>

text \<open>
  Strings are lists of 8-bit characters; the program's texts that matter here (error
  messages, addresses, hashes) are ASCII. \<open>toLowerCase\<close> maps the 26 capital letters
  and leaves every other character alone, as JavaScript does on ASCII text.
\<close>

definition toLowerChar :: "char \<Rightarrow> char" where
  "toLowerChar c =
     (case map_of (zip ''ABCDEFGHIJKLMNOPQRSTUVWXYZ'' ''abcdefghijklmnopqrstuvwxyz'') c of
        Some l \<Rightarrow> l
      | None \<Rightarrow> c)"

definition toLowerCase :: "string \<Rightarrow> string" where
  "toLowerCase s = map toLowerChar s"

text \<open>\<open>String.prototype.includes\<close>: the needle occurs as a contiguous part.\<close>

fun str_includes :: "string \<Rightarrow> string \<Rightarrow> bool" where
  "str_includes [] needle = (needle = [])"
| "str_includes (c # cs) needle =
     (take (length needle) (c # cs) = needle \<or> str_includes cs needle)"

text \<open>Decimal rendering of a non-negative integer (\<open>String(n)\<close>, template literals).\<close>

definition digit_char :: "nat \<Rightarrow> char" where
  "digit_char d = ''0123456789'' ! (d mod 10)"

function show_nat :: "nat \<Rightarrow> string" where
  "show_nat n = (if n < 10 then [digit_char n] else show_nat (n div 10) @ [digit_char n])"
  by pat_completeness auto
termination
  by (relation "measure id") auto

declare show_nat.simps [simp del]

definition show_int :: "int \<Rightarrow> string" where
  "show_int i = (if i < 0 then CHR ''-'' # show_nat (nat (- i)) else show_nat (nat i))"

text \<open>
  What a \<open>throw\<close> carries. The classes of \<open>utils/errors.ts\<close> all extend \<open>Error\<close>;
  \<open>ThrownValue\<close> stands for a thrown value that is not an \<open>Error\<close> instance, with
  its \<open>String(v)\<close>.
\<close>

datatype error =
    Error string
  | ConfigError string
  | RPCError string "string option"
  | StorageError string
  | ABIError string
  | FileSystemError string
  | ThrownValue string

fun instanceofError :: "error \<Rightarrow> bool" where
  "instanceofError (ThrownValue _) = False"
| "instanceofError _ = True"

text \<open>\<open>error instanceof Error ? error.message : String(error)\<close>\<close>

fun error_text :: "error \<Rightarrow> string" where
  "error_text (Error m) = m"
| "error_text (ConfigError m) = m"
| "error_text (RPCError m _) = m"
| "error_text (StorageError m) = m"
| "error_text (ABIError m) = m"
| "error_text (FileSystemError m) = m"
| "error_text (ThrownValue s) = s"

section \<open>Core types (\<open>core/types.ts\<close>)\<close>

text \<open>A JSON-representable value: the payload of a decoded event.\<close>

datatype payload =
    PString string
  | PNumber int
  | PBool bool
  | PNull
  | PArray "payload list"
  | PObject "(string \<times> payload) list"

record DecodedEvent =
  contractAddress :: string
  blockNumber :: int
  blockTimestamp :: int
  transactionHash :: string
  logIndex :: int
  eventName :: string
  eventData :: "(string \<times> payload) list"

section \<open>Storage (\<open>storage/sqlite.ts\<close>)\<close>

text \<open>
  The two tables. A row of \<open>events\<close> holds the eight bound columns; the autoincrement
  \<open>id\<close> is never read back by the adapter and is left out. \<open>event_data\<close> holds
  \<open>JSON.stringify(eventData)\<close>, which \<open>queryEvents\<close> parses back: the column is
  modelled by the payload itself. \<open>sync_state\<close> is keyed by its primary key.
\<close>

record event_row =
  contract_address :: string
  block_number :: int
  block_timestamp :: int
  transaction_hash :: string
  log_index :: int
  event_name :: string
  event_data :: "(string \<times> payload) list"
  indexed_at :: int

record sync_row =
  chain_id :: int
  last_block :: int
  last_sync :: int
  status :: string

record database =
  events :: "event_row list"
  sync_state :: "string \<rightharpoonup> sync_row"

text \<open>\<open>SQLiteAdapter.db\<close> is \<open>null\<close> before \<open>init\<close> and after \<open>close\<close>.\<close>

record SQLiteAdapter =
  db :: "database option"

text \<open>
  What the adapter cannot control while a call runs: the store may refuse a statement
  (\<open>fault k\<close> is the message thrown by the \<open>k\<close>-th database call of the operation, counted
  from 0, \<open>None\<close> when it succeeds), and \<open>clock k\<close> is
  \<open>Math.floor(Date.now() / 1000)\<close> as read for that call.
\<close>

record store_env =
  fault :: "nat \<Rightarrow> string option"
  clock :: "nat \<Rightarrow> int"

definition no_faults :: "(nat \<Rightarrow> int) \<Rightarrow> store_env" where
  "no_faults c = \<lparr>fault = (\<lambda>_. None), clock = c\<rparr>"

definition init_database :: database where
  "init_database = \<lparr>events = [], sync_state = Map.empty\<rparr>"

definition ensureDb :: "SQLiteAdapter \<Rightarrow> error + database" where
  "ensureDb a =
     (case db a of
        None \<Rightarrow> Inl (StorageError ''Database not initialized or already closed'')
      | Some d \<Rightarrow> Inr d)"

definition row_of_event :: "DecodedEvent \<Rightarrow> int \<Rightarrow> event_row" where
  "row_of_event e t =
     \<lparr>contract_address = contractAddress e,
      block_number = blockNumber e,
      block_timestamp = blockTimestamp e,
      transaction_hash = transactionHash e,
      log_index = logIndex e,
      event_name = eventName e,
      event_data = eventData e,
      indexed_at = t\<rparr>"

text \<open>
  \<open>INSERT OR IGNORE\<close> under \<open>UNIQUE(transaction_hash, log_index)\<close>: the row is added
  unless a stored row has the same pair; the result is \<open>changes\<close> and the new table.
\<close>

definition same_key :: "event_row \<Rightarrow> event_row \<Rightarrow> bool" where
  "same_key r x = (transaction_hash x = transaction_hash r \<and> log_index x = log_index r)"

definition insert_or_ignore :: "event_row \<Rightarrow> event_row list \<Rightarrow> nat \<times> event_row list" where
  "insert_or_ignore r rows =
     (if list_ex (same_key r) rows then (0, rows) else (1, rows @ [r]))"

text \<open>
  The loop of \<open>insertMany\<close>: one \<open>stmt.run\<close> per event, database call number \<open>k\<close>, the
  count of rows really inserted carried along. A failing call throws out of the loop.
\<close>

fun insertMany ::
  "store_env \<Rightarrow> nat \<Rightarrow> DecodedEvent list \<Rightarrow> nat \<Rightarrow> event_row list \<Rightarrow> string + (nat \<times> event_row list)"
where
  "insertMany env k [] insertedCount rows = Inr (insertedCount, rows)"
| "insertMany env k (e # es) insertedCount rows =
     (case fault env k of
        Some msg \<Rightarrow> Inl msg
      | None \<Rightarrow>
          (case insert_or_ignore (row_of_event e (clock env k)) rows of
             (changes, rows') \<Rightarrow>
               insertMany env (Suc k) es
                 (if changes > 0 then insertedCount + 1 else insertedCount) rows'))"

text \<open>
  \<open>insertEvents\<close>: call 0 prepares the statement, calls 1, 2, ... run it inside one
  transaction. A throw inside the transaction rolls it back (the adapter keeps the
  database it had) and is wrapped into a \<open>StorageError\<close>.
\<close>

definition insertEvents ::
  "store_env \<Rightarrow> DecodedEvent list \<Rightarrow> SQLiteAdapter \<Rightarrow> (error + nat) \<times> SQLiteAdapter"
where
  "insertEvents env evs a =
     (case ensureDb a of
        Inl err \<Rightarrow> (Inl err, a)
      | Inr d \<Rightarrow>
          if length evs = 0 then (Inr 0, a)
          else
            (case fault env 0 of
               Some msg \<Rightarrow> (Inl (StorageError (''Failed to insert events: '' @ msg)), a)
             | None \<Rightarrow>
                 (case insertMany env 1 evs 0 (events d) of
                    Inl msg \<Rightarrow> (Inl (StorageError (''Failed to insert events: '' @ msg)), a)
                  | Inr (n, rows') \<Rightarrow> (Inr n, a\<lparr>db := Some (d\<lparr>events := rows'\<rparr>)\<rparr>))))"

definition getLastSyncedBlock ::
  "store_env \<Rightarrow> string \<Rightarrow> SQLiteAdapter \<Rightarrow> error + int option"
where
  "getLastSyncedBlock env addr a =
     (case ensureDb a of
        Inl err \<Rightarrow> Inl err
      | Inr d \<Rightarrow>
          (case fault env 0 of
             Some msg \<Rightarrow> Inl (StorageError (''Failed to get last synced block: '' @ msg))
           | None \<Rightarrow>
               (case fault env 1 of
                  Some msg \<Rightarrow> Inl (StorageError (''Failed to get last synced block: '' @ msg))
                | None \<Rightarrow>
                    (case sync_state d addr of
                       None \<Rightarrow> Inr None
                     | Some r \<Rightarrow> Inr (Some (last_block r))))))"

text \<open>
  The upsert of \<open>sync_state\<close>: a new row takes the default status \<open>'active'\<close>; on a
  conflict only \<open>last_block\<close> and \<open>last_sync\<close> are overwritten.
\<close>

definition upsert_sync :: "string \<Rightarrow> int \<Rightarrow> int \<Rightarrow> int \<Rightarrow> database \<Rightarrow> database" where
  "upsert_sync addr chainId blk t d =
     d\<lparr>sync_state := (sync_state d)(addr \<mapsto>
        (case sync_state d addr of
           None \<Rightarrow> \<lparr>chain_id = chainId, last_block = blk, last_sync = t, status = ''active''\<rparr>
         | Some r \<Rightarrow> r\<lparr>last_block := blk, last_sync := t\<rparr>))\<rparr>"

text \<open>The loop over the events inside \<open>updateTransaction\<close>: the result of \<open>run\<close> is not read.\<close>

fun insertEach ::
  "store_env \<Rightarrow> nat \<Rightarrow> DecodedEvent list \<Rightarrow> event_row list \<Rightarrow> string + event_row list"
where
  "insertEach env k [] rows = Inr rows"
| "insertEach env k (e # es) rows =
     (case fault env k of
        Some msg \<Rightarrow> Inl msg
      | None \<Rightarrow> insertEach env (Suc k) es (snd (insert_or_ignore (row_of_event e (clock env k)) rows)))"

text \<open>
  The body of \<open>updateTransaction\<close>: call 0 prepares and call 1 runs the upsert; when
  there are events, call 2 prepares the insert and calls 3, 4, ... run it.
\<close>

definition updateTransaction ::
  "store_env \<Rightarrow> string \<Rightarrow> int \<Rightarrow> int \<Rightarrow> DecodedEvent list \<Rightarrow> database \<Rightarrow> string + database"
where
  "updateTransaction env addr chainId blk evs d =
     (case fault env 0 of
        Some msg \<Rightarrow> Inl msg
      | None \<Rightarrow>
     (case fault env 1 of
        Some msg \<Rightarrow> Inl msg
      | None \<Rightarrow>
          (let d1 = upsert_sync addr chainId blk (clock env 1) d in
           if length evs > 0 then
             (case fault env 2 of
                Some msg \<Rightarrow> Inl msg
              | None \<Rightarrow>
                  (case insertEach env 3 evs (events d1) of
                     Inl msg \<Rightarrow> Inl msg
                   | Inr rows' \<Rightarrow> Inr (d1\<lparr>events := rows'\<rparr>)))
           else Inr d1)))"

text \<open>
  \<open>updateSyncStateAndInsertEvents\<close>: the body runs as one transaction; when it throws,
  the transaction is rolled back and the error is wrapped.
\<close>

definition updateSyncStateAndInsertEvents ::
  "store_env \<Rightarrow> string \<Rightarrow> int \<Rightarrow> int \<Rightarrow> DecodedEvent list \<Rightarrow> SQLiteAdapter
     \<Rightarrow> (error + unit) \<times> SQLiteAdapter"
where
  "updateSyncStateAndInsertEvents env addr chainId blk evs a =
     (case ensureDb a of
        Inl err \<Rightarrow> (Inl err, a)
      | Inr d \<Rightarrow>
          (case updateTransaction env addr chainId blk evs d of
             Inl msg \<Rightarrow>
               (Inl (StorageError (''Failed to update sync state and insert events: '' @ msg)), a)
           | Inr d' \<Rightarrow> (Inr (), a\<lparr>db := Some d'\<rparr>)))"

text \<open>
  \<open>queryEvents\<close>. A filter field that is absent is \<open>None\<close>; \<open>contractAddress\<close> and
  \<open>eventName\<close> are tested for truthiness, so the empty string filters nothing. Rows
  come back ordered by \<open>(block_number, log_index)\<close>; a negative \<open>LIMIT\<close> is no limit
  and a negative \<open>OFFSET\<close> is 0, as in SQLite.
\<close>

record EventFilter =
  f_contractAddress :: "string option"
  f_eventName :: "string option"
  f_fromBlock :: "int option"
  f_toBlock :: "int option"
  f_limit :: "int option"
  f_offset :: "int option"

definition truthy_string :: "string option \<Rightarrow> string option" where
  "truthy_string s = (case s of Some x \<Rightarrow> (if x = [] then None else Some x) | None \<Rightarrow> None)"

definition row_matches :: "EventFilter \<Rightarrow> event_row \<Rightarrow> bool" where
  "row_matches f r =
     ((case truthy_string (f_contractAddress f) of Some a \<Rightarrow> contract_address r = a | None \<Rightarrow> True) \<and>
      (case truthy_string (f_eventName f) of Some n \<Rightarrow> event_name r = n | None \<Rightarrow> True) \<and>
      (case f_fromBlock f of Some b \<Rightarrow> block_number r \<ge> b | None \<Rightarrow> True) \<and>
      (case f_toBlock f of Some b \<Rightarrow> block_number r \<le> b | None \<Rightarrow> True))"

definition sql_limit :: "int \<Rightarrow> 'a list \<Rightarrow> 'a list" where
  "sql_limit n xs = (if n < 0 then xs else take (nat n) xs)"

definition sql_offset :: "int \<Rightarrow> 'a list \<Rightarrow> 'a list" where
  "sql_offset n xs = drop (nat n) xs"

definition MAX_SAFE_INTEGER :: int where
  "MAX_SAFE_INTEGER = 9007199254740991"

definition limit_offset :: "EventFilter \<Rightarrow> 'a list \<Rightarrow> 'a list" where
  "limit_offset f xs =
     (case f_limit f of
        Some l \<Rightarrow>
          (case f_offset f of
             Some off \<Rightarrow> sql_limit l (sql_offset off xs)
           | None \<Rightarrow> sql_limit l xs)
      | None \<Rightarrow>
          (case f_offset f of
             Some off \<Rightarrow> sql_limit MAX_SAFE_INTEGER (sql_offset off xs)
           | None \<Rightarrow> xs))"

definition event_of_row :: "event_row \<Rightarrow> DecodedEvent" where
  "event_of_row r =
     \<lparr>contractAddress = contract_address r,
      blockNumber = block_number r,
      blockTimestamp = block_timestamp r,
      transactionHash = transaction_hash r,
      logIndex = log_index r,
      eventName = event_name r,
      eventData = event_data r\<rparr>"

definition queryEvents ::
  "store_env \<Rightarrow> EventFilter \<Rightarrow> SQLiteAdapter \<Rightarrow> error + DecodedEvent list"
where
  "queryEvents env f a =
     (case ensureDb a of
        Inl err \<Rightarrow> Inl err
      | Inr d \<Rightarrow>
          (case fault env 0 of
             Some msg \<Rightarrow> Inl (StorageError (''Failed to query events: '' @ msg))
           | None \<Rightarrow>
               (case fault env 1 of
                  Some msg \<Rightarrow> Inl (StorageError (''Failed to query events: '' @ msg))
                | None \<Rightarrow>
                    Inr (map event_of_row
                          (limit_offset f
                            (sort_key (\<lambda>r. (block_number r, log_index r))
                              (filter (row_matches f) (events d))))))))"

text \<open>
  \<open>init\<close> opens the file at \<open>dbPath\<close> and creates the tables when they are missing:
  a file that does not exist yet (\<open>None\<close>) gives the empty store.
\<close>

definition init_adapter :: "database option \<Rightarrow> SQLiteAdapter" where
  "init_adapter file = \<lparr>db = Some (case file of None \<Rightarrow> init_database | Some d \<Rightarrow> d)\<rparr>"

text \<open>The events, the filter and the batch of the adapter's unit tests.\<close>

definition commit_event_100 :: DecodedEvent where
  "commit_event_100 =
     \<lparr>contractAddress = ''0x1234'', blockNumber = 100, blockTimestamp = 1700000000,
      transactionHash = ''0xabc'', logIndex = 0, eventName = ''Transfer'',
      eventData = [(''amount'', PString ''100'')]\<rparr>"

definition commit_event_101 :: DecodedEvent where
  "commit_event_101 =
     \<lparr>contractAddress = ''0x1234'', blockNumber = 101, blockTimestamp = 1700000010,
      transactionHash = ''0xdef'', logIndex = 0, eventName = ''Transfer'',
      eventData = [(''amount'', PString ''200'')]\<rparr>"

definition by_contract :: "string \<Rightarrow> EventFilter" where
  "by_contract addr =
     \<lparr>f_contractAddress = Some addr, f_eventName = None, f_fromBlock = None,
      f_toBlock = None, f_limit = None, f_offset = None\<rparr>"

text \<open>Some stored row has the uniqueness pair of the event.\<close>

definition has_key :: "event_row list \<Rightarrow> DecodedEvent \<Rightarrow> bool" where
  "has_key rows e = list_ex (\<lambda>x. transaction_hash x = transactionHash e \<and> log_index x = logIndex e) rows"

text \<open>\<open>String.prototype.padStart\<close> with a one-character filler.\<close>

definition padStart :: "nat \<Rightarrow> char \<Rightarrow> string \<Rightarrow> string" where
  "padStart n c s = replicate (n - length s) c @ s"

definition batch_event :: "nat \<Rightarrow> DecodedEvent" where
  "batch_event i =
     \<lparr>contractAddress = ''0x1234'', blockNumber = 100 + int i,
      blockTimestamp = 1700000000 + int i,
      transactionHash = ''0x'' @ padStart 64 (CHR ''0'') (show_nat i),
      logIndex = int i, eventName = ''Transfer'',
      eventData = [(''from'', PString ''0x111''), (''to'', PString ''0x222''),
                   (''amount'', PString (show_nat i))]\<rparr>"

definition batch100 :: "DecodedEvent list" where
  "batch100 = map batch_event [0..<100]"

section \<open>Provider pool (\<open>providers/provider-pool.ts\<close>)\<close>

record ProviderConfig =
  cfg_url :: string
  cfg_priority :: int

text \<open>
  \<open>ProviderEntry\<close> without its \<open>ethers.JsonRpcProvider\<close> handle, which the constructor
  derives from the URL. The field \<open>id\<close> is called \<open>entry_id\<close> here.
\<close>

record ProviderEntry =
  entry_id :: string
  url :: string
  priority :: int
  healthy :: bool
  consecutiveFailures :: nat
  lastFailure :: "int option"
  lastSuccess :: "int option"
  lastError :: "string option"

record ProviderInfo =
  info_id :: string
  info_url :: string
  info_priority :: int

text \<open>
  The pool keeps each entry object in two containers, the map \<open>providers\<close> and the
  array \<open>providerList\<close>; a report mutates the object found through the map, and checkout
  reads the objects through the array. The objects live in \<open>heap\<close> (in the order the
  constructor made them) and both containers hold positions in it.
\<close>

record ProviderPool =
  heap :: "ProviderEntry list"
  providers :: "string \<rightharpoonup> nat"
  providerList :: "nat list"
  failureThreshold :: int
  cooldownPeriod :: int
  roundRobinIndex :: nat

text \<open>
  \<open>generateProviderId\<close>: \<open>hash = (hash << 5) - hash + char; hash = hash & hash\<close> keeps
  a signed 32-bit value, so one step is the same arithmetic on a 32-bit word.
\<close>

definition hash_step :: "32 word \<Rightarrow> char \<Rightarrow> 32 word" where
  "hash_step hash c = push_bit 5 hash - hash + of_nat (of_char c)"

definition generateProviderId :: "string \<Rightarrow> string" where
  "generateProviderId u = ''provider-'' @ show_int (abs (sint (foldl hash_step 0 u)))"

definition new_entry :: "ProviderConfig \<Rightarrow> ProviderEntry" where
  "new_entry config =
     \<lparr>entry_id = generateProviderId (cfg_url config),
      url = cfg_url config,
      priority = cfg_priority config,
      healthy = True,
      consecutiveFailures = 0,
      lastFailure = None,
      lastSuccess = None,
      lastError = None\<rparr>"

text \<open>
  The constructor: \<open>providers.set(id, entry)\<close> in configuration order (a later entry
  with the same id replaces the earlier one in the map), then a stable sort of the
  array by priority, highest first.
\<close>

definition register_all :: "ProviderEntry list \<Rightarrow> (string \<rightharpoonup> nat)" where
  "register_all h = foldl (\<lambda>m i. m(entry_id (h ! i) \<mapsto> i)) Map.empty [0..<length h]"

definition new_ProviderPool ::
  "ProviderConfig list \<Rightarrow> int option \<Rightarrow> int option \<Rightarrow> error + ProviderPool"
where
  "new_ProviderPool providerConfigs opt_failureThreshold opt_cooldownPeriod =
     (if length providerConfigs = 0
      then Inl (Error ''At least one provider configuration is required'')
      else
        (let h = map new_entry providerConfigs in
         Inr \<lparr>heap = h,
              providers = register_all h,
              providerList = sort_key (\<lambda>i. - priority (h ! i)) [0..<length h],
              failureThreshold = (case opt_failureThreshold of Some t \<Rightarrow> t | None \<Rightarrow> 3),
              cooldownPeriod = (case opt_cooldownPeriod of Some c \<Rightarrow> c | None \<Rightarrow> 30000),
              roundRobinIndex = 0\<rparr>))"

definition info_of :: "ProviderEntry \<Rightarrow> ProviderInfo" where
  "info_of e = \<lparr>info_id = entry_id e, info_url = url e, info_priority = priority e\<rparr>"

text \<open>
  The first loop of \<open>getProvider\<close> over \<open>providerList\<close>: it collects the healthy
  entries in order and remembers the last unhealthy entry whose cooldown has passed.
\<close>

fun scan_providers ::
  "ProviderPool \<Rightarrow> int \<Rightarrow> nat list \<Rightarrow> nat list \<Rightarrow> nat option \<Rightarrow> nat list \<times> nat option"
where
  "scan_providers p now [] healthyProviders bestUnhealthyProvider =
     (healthyProviders, bestUnhealthyProvider)"
| "scan_providers p now (a # as) healthyProviders bestUnhealthyProvider =
     (let entry = heap p ! a in
      scan_providers p now as
        (if healthy entry then healthyProviders @ [a] else healthyProviders)
        (if \<not> healthy entry \<and> lastFailure entry \<noteq> None
         then (if now - the (lastFailure entry) \<ge> cooldownPeriod p
               then Some a else bestUnhealthyProvider)
         else bestUnhealthyProvider))"

text \<open>The weighted list built from a non-empty list of healthy entries.\<close>

definition weightedList :: "ProviderPool \<Rightarrow> nat list \<Rightarrow> nat list" where
  "weightedList p healthyProviders =
     (let basePriority = max 0 (priority (heap p ! last healthyProviders)) in
      concat (map (\<lambda>a. replicate (nat (max 1 (priority (heap p ! a) - basePriority + 1))) a)
                healthyProviders))"

definition getProvider :: "int \<Rightarrow> ProviderPool \<Rightarrow> (error + ProviderInfo) \<times> ProviderPool" where
  "getProvider now p =
     (case scan_providers p now (providerList p) [] None of
        (healthyProviders, bestUnhealthyProvider) \<Rightarrow>
          if length healthyProviders > 0 then
            (let wl = weightedList p healthyProviders;
                 provider = wl ! (roundRobinIndex p mod length wl)
             in (Inr (info_of (heap p ! provider)),
                 p\<lparr>roundRobinIndex := roundRobinIndex p + 1\<rparr>))
          else
            (case bestUnhealthyProvider of
               Some a \<Rightarrow> (Inr (info_of (heap p ! a)), p)
             | None \<Rightarrow> (Inl (Error ''No healthy providers available''), p)))"

text \<open>\<open>error.message\<close> of what a caller passes as the \<open>Error\<close>.\<close>

fun message_of :: "error \<Rightarrow> string option" where
  "message_of (ThrownValue _) = None"
| "message_of e = Some (error_text e)"

definition reportSuccess :: "int \<Rightarrow> string \<Rightarrow> ProviderPool \<Rightarrow> (error + unit) \<times> ProviderPool" where
  "reportSuccess now providerId p =
     (case providers p providerId of
        None \<Rightarrow> (Inl (Error (''Provider '' @ providerId @ '' not found'')), p)
      | Some a \<Rightarrow>
          (Inr (),
           p\<lparr>heap := (heap p)[a := (heap p ! a)
                \<lparr>healthy := True, consecutiveFailures := 0,
                 lastSuccess := Some now, lastError := None\<rparr>]\<rparr>))"

definition reportFailure ::
  "int \<Rightarrow> string \<Rightarrow> error \<Rightarrow> ProviderPool \<Rightarrow> (error + unit) \<times> ProviderPool"
where
  "reportFailure now providerId err p =
     (case providers p providerId of
        None \<Rightarrow> (Inl (Error (''Provider '' @ providerId @ '' not found'')), p)
      | Some a \<Rightarrow>
          (let entry = (heap p ! a)
                 \<lparr>consecutiveFailures := consecutiveFailures (heap p ! a) + 1,
                  lastFailure := Some now, lastError := message_of err\<rparr>;
               entry' = (if int (consecutiveFailures entry) \<ge> failureThreshold p
                         then entry\<lparr>healthy := False\<rparr> else entry)
           in (Inr (), p\<lparr>heap := (heap p)[a := entry']\<rparr>)))"

text \<open>
  A history of calls on one pool, each with the time \<open>Date.now()\<close> it reads, and the
  pool after the history. \<open>trailing_failures\<close> counts, for one provider id, the failure
  reports since its last success report (or since construction).
\<close>

datatype pool_call =
    ReportSuccess string int
  | ReportFailure string int error
  | GetProvider int

fun pool_step :: "ProviderPool \<Rightarrow> pool_call \<Rightarrow> ProviderPool" where
  "pool_step p (ReportSuccess providerId now) = snd (reportSuccess now providerId p)"
| "pool_step p (ReportFailure providerId now err) = snd (reportFailure now providerId err p)"
| "pool_step p (GetProvider now) = snd (getProvider now p)"

definition pool_run :: "ProviderPool \<Rightarrow> pool_call list \<Rightarrow> ProviderPool" where
  "pool_run p calls = foldl pool_step p calls"

fun count_step :: "string \<Rightarrow> nat \<Rightarrow> pool_call \<Rightarrow> nat" where
  "count_step providerId n (ReportSuccess i _) = (if i = providerId then 0 else n)"
| "count_step providerId n (ReportFailure i _ _) = (if i = providerId then n + 1 else n)"
| "count_step providerId n (GetProvider _) = n"

definition trailing_failures :: "string \<Rightarrow> pool_call list \<Rightarrow> nat" where
  "trailing_failures providerId calls = foldl (count_step providerId) 0 calls"

text \<open>The healthy entries of the pool, in the order of \<open>providerList\<close>.\<close>

definition healthy_entries :: "ProviderPool \<Rightarrow> nat list" where
  "healthy_entries p = filter (\<lambda>a. healthy (heap p ! a)) (providerList p)"

text \<open>
  What the constructor establishes and every call keeps: the map points at entries
  carrying the id they are filed under, and the array lists every entry once, by
  priority, highest first.
\<close>

definition pool_wf :: "ProviderPool \<Rightarrow> bool" where
  "pool_wf p =
     ((\<forall>i a. providers p i = Some a \<longrightarrow> a < length (heap p) \<and> entry_id (heap p ! a) = i) \<and>
      set (providerList p) = {..<length (heap p)} \<and>
      distinct (providerList p) \<and>
      sorted (map (\<lambda>a. - priority (heap p ! a)) (providerList p)))"

definition min_healthy_priority :: "ProviderPool \<Rightarrow> int" where
  "min_healthy_priority p = Min ((\<lambda>a. priority (heap p ! a)) ` set (healthy_entries p))"

text \<open>Concrete pools: the three endpoints of the unit tests, and two edge configurations.\<close>

definition mockProviders :: "ProviderConfig list" where
  "mockProviders =
     [\<lparr>cfg_url = ''http://localhost:8545'', cfg_priority = 1\<rparr>,
      \<lparr>cfg_url = ''http://localhost:8546'', cfg_priority = 2\<rparr>,
      \<lparr>cfg_url = ''http://localhost:8547'', cfg_priority = 0\<rparr>]"

definition mock_pool :: ProviderPool where
  "mock_pool = projr (new_ProviderPool mockProviders None None)"

definition three_failures :: "pool_call list" where
  "three_failures =
     [ReportFailure ''provider-1860031576'' 1000 (Error ''Connection failed''),
      ReportFailure ''provider-1860031576'' 2000 (Error ''Connection failed''),
      ReportFailure ''provider-1860031576'' 3000 (Error ''Connection failed'')]"

definition zero_threshold_pool :: ProviderPool where
  "zero_threshold_pool =
     projr (new_ProviderPool [\<lparr>cfg_url = ''http://localhost:8545'', cfg_priority = 1\<rparr>]
              (Some 0) None)"

definition failure_then_success :: "pool_call list" where
  "failure_then_success =
     [ReportFailure ''provider-1860031575'' 1000 (Error ''Failed''),
      ReportSuccess ''provider-1860031575'' 2000]"

definition negative_priority_pool :: ProviderPool where
  "negative_priority_pool =
     projr (new_ProviderPool
              [\<lparr>cfg_url = ''http://localhost:8545'', cfg_priority = 1\<rparr>,
               \<lparr>cfg_url = ''http://localhost:8546'', cfg_priority = - 1\<rparr>] None None)"

text \<open>The same URL configured twice: both entries get the same id.\<close>

definition duplicate_url_pool :: ProviderPool where
  "duplicate_url_pool =
     projr (new_ProviderPool
              [\<lparr>cfg_url = ''http://localhost:8545'', cfg_priority = 1\<rparr>,
               \<lparr>cfg_url = ''http://localhost:8545'', cfg_priority = 1\<rparr>] None None)"

definition shared_id_failures :: "pool_call list" where
  "shared_id_failures =
     [ReportFailure ''provider-1860031575'' 1000 (Error ''Connection failed''),
      ReportFailure ''provider-1860031575'' 2000 (Error ''Connection failed''),
      ReportFailure ''provider-1860031575'' 3000 (Error ''Connection failed'')]"

section \<open>Rate-limit classification (\<open>providers/rate-limiter.ts\<close>)\<close>

text \<open>
  The argument has type \<open>unknown\<close>. A value is one of the primitives, a function, or an
  object; of an object the predicate reads only whether it is an \<open>Error\<close> instance,
  its properties (own or inherited, as \<open>in\<close> and property access see them) and what its
  \<open>toString\<close> does. Property getters that throw are not modelled.
\<close>

datatype to_string =
    NotAFunction
  | ToStringThrows
  | ReturnsNonString
  | ReturnsString string














section \<open>Event decoder (\<open>abi/decoder.ts\<close>)\<close>

text \<open>A raw log as the RPC client hands it over; \<open>raw_index\<close> is \<open>log.index\<close>.\<close>

record Log =
  raw_address :: string
  raw_topics :: "string list"
  raw_data :: string
  raw_blockNumber :: int
  raw_transactionHash :: string
  raw_index :: int

text \<open>
  A decoded argument, by the first test of \<open>serializeValue\<close> it passes: a bigint, an
  array, an object with \<open>toObject\<close> (which returns named values, or throws when a value
  is unnamed), an object flagged \<open>_isIndexed\<close> or \<open>_isBigNumber\<close> (with its
  \<open>String(value)\<close>), or anything else, returned as it is.
\<close>

datatype ethvalue =
    VBigInt int
  | VArray "ethvalue list"
  | VResult "(string \<times> ethvalue) list"
  | VResultUnnamed
  | VFlagged string
  | VPlain payload

text \<open>
  What \<open>Interface.parseLog\<close> of the ethers library does with the topics and the data:
  it throws, returns \<open>null\<close> (no event of the ABI has this topic 0), or returns the
  event's name and its arguments (\<open>None\<close> when \<open>args.toObject()\<close> throws).
\<close>

datatype parse_outcome =
    ParseThrows error
  | ParseNull
  | Parsed string "(string \<times> ethvalue) list option"

text \<open>The part of the ethers \<open>Interface\<close> the program uses; \<open>getEvent\<close> gives the topic hash.\<close>

record Interface =
  parseLog :: "string list \<Rightarrow> string \<Rightarrow> parse_outcome"
  getEvent :: "string \<Rightarrow> string option"

fun serializeValue :: "ethvalue \<Rightarrow> error + payload"
  and serializeItems :: "ethvalue list \<Rightarrow> error + payload list"
  and serializeEntries :: "(string \<times> ethvalue) list \<Rightarrow> error + (string \<times> payload) list"
where
  "serializeValue (VBigInt n) = Inr (PString (show_int n))"
| "serializeValue (VArray items) =
     (case serializeItems items of Inl e \<Rightarrow> Inl e | Inr ps \<Rightarrow> Inr (PArray ps))"
| "serializeValue (VResult kvs) =
     (case serializeEntries kvs of Inl e \<Rightarrow> Inl e | Inr ps \<Rightarrow> Inr (PObject ps))"
| "serializeValue VResultUnnamed = Inl (Error ''value at index has no name'')"
| "serializeValue (VFlagged s) = Inr (PString s)"
| "serializeValue (VPlain v) = Inr v"
| "serializeItems [] = Inr []"
| "serializeItems (v # vs) =
     (case serializeValue v of
        Inl e \<Rightarrow> Inl e
      | Inr p \<Rightarrow> (case serializeItems vs of Inl e \<Rightarrow> Inl e | Inr ps \<Rightarrow> Inr (p # ps)))"
| "serializeEntries [] = Inr []"
| "serializeEntries (kv # kvs) =
     (case serializeValue (snd kv) of
        Inl e \<Rightarrow> Inl e
      | Inr p \<Rightarrow>
          (case serializeEntries kvs of Inl e \<Rightarrow> Inl e | Inr ps \<Rightarrow> Inr ((fst kv, p) # ps)))"

definition serializeEventData :: "(string \<times> ethvalue) list option \<Rightarrow> error + (string \<times> payload) list" where
  "serializeEventData args =
     (case args of
        None \<Rightarrow> Inl (Error ''value at index has no name'')
      | Some obj \<Rightarrow> serializeEntries obj)"

text \<open>The \<open>try\<close> block of \<open>decode\<close>, and \<open>decode\<close> with its \<open>catch\<close>.\<close>

definition decode_try :: "Interface \<Rightarrow> Log \<Rightarrow> error + DecodedEvent option" where
  "decode_try iface log =
     (case parseLog iface (raw_topics log) (raw_data log) of
        ParseThrows e \<Rightarrow> Inl e
      | ParseNull \<Rightarrow> Inr None
      | Parsed name args \<Rightarrow>
          (case serializeEventData args of
             Inl e \<Rightarrow> Inl e
           | Inr data \<Rightarrow>
               Inr (Some \<lparr>contractAddress = raw_address log,
                          blockNumber = raw_blockNumber log,
                          blockTimestamp = 0,
                          transactionHash = raw_transactionHash log,
                          logIndex = raw_index log,
                          eventName = name,
                          eventData = data\<rparr>)))"

definition decode :: "Interface \<Rightarrow> Log \<Rightarrow> error + DecodedEvent option" where
  "decode iface log =
     (case decode_try iface log of
        Inl error \<Rightarrow> Inr None
      | Inr r \<Rightarrow> Inr r)"

section \<open>Event fetcher (\<open>core/event-fetcher.ts\<close>)\<close>

record LogFilter =
  flt_address :: string
  flt_topics :: "string list list"
  flt_fromBlock :: int
  flt_toBlock :: int

text \<open>
  The RPC endpoint is outside the program. \<open>getLogs k flt\<close> is the outcome of the
  \<open>k\<close>-th \<open>getLogs\<close> call of a fetch (counted from 0) when asked \<open>flt\<close>;
  \<open>getBlock n k\<close> is the outcome of the \<open>k\<close>-th attempt to read block \<open>n\<close>
  (\<open>Some\<close> its timestamp, or \<open>None\<close> for a \<open>null\<close> block); \<open>getBlockNumber k\<close>
  is the head the \<open>k\<close>-th time it is asked.
\<close>

record RpcProvider =
  getLogs :: "nat \<Rightarrow> LogFilter \<Rightarrow> error + Log list"
  getBlock :: "int \<Rightarrow> nat \<Rightarrow> error + int option"
  getBlockNumber :: "nat \<Rightarrow> error + int"

record EventFetcher =
  provider :: RpcProvider
  providerId :: string
  decoder :: Interface
  initialChunkSize :: int
  blockRangeLimits :: "string \<rightharpoonup> int"
  blockTimestampCache :: "int \<rightharpoonup> int"

definition new_EventFetcher :: "RpcProvider \<Rightarrow> string \<Rightarrow> Interface \<Rightarrow> int option \<Rightarrow> EventFetcher" where
  "new_EventFetcher P pid dec chunk =
     \<lparr>provider = P, providerId = pid, decoder = dec,
      initialChunkSize = (case chunk of Some c \<Rightarrow> c | None \<Rightarrow> 2000),
      blockRangeLimits = Map.empty, blockTimestampCache = Map.empty\<rparr>"

definition isBlockRangeError :: "error \<Rightarrow> bool" where
  "isBlockRangeError err =
     (if \<not> instanceofError err then False
      else
        (let message = toLowerCase (error_text err) in
         str_includes message ''block range'' \<or>
         str_includes message ''query returned more than'' \<or>
         str_includes message ''exceeds max''))"

text \<open>
  The chunk size in force when a fetch starts:
  \<open>this.blockRangeLimits.get(this.providerId) ?? this.initialChunkSize\<close>.
\<close>

definition current_chunkSize :: "EventFetcher \<Rightarrow> int" where
  "current_chunkSize f =
     (case blockRangeLimits f (providerId f) of Some c \<Rightarrow> c | None \<Rightarrow> initialChunkSize f)"

text \<open>\<open>eventNames.map(...)\<close>: the topic hash of every name, or the throw at the first unknown one.\<close>

fun topic_hashes :: "Interface \<Rightarrow> string list \<Rightarrow> error + string list" where
  "topic_hashes iface [] = Inr []"
| "topic_hashes iface (name # names) =
     (case getEvent iface name of
        None \<Rightarrow> Inl (Error (''Event '' @ name @ '' not found in contract interface''))
      | Some topicHash \<Rightarrow>
          (case topic_hashes iface names of
             Inl e \<Rightarrow> Inl e
           | Inr hs \<Rightarrow> Inr (topicHash # hs)))"

text \<open>
  The variables of the \<open>while\<close> loop of \<open>fetchEvents\<close>, the cache of range limits it
  writes, and the \<open>getLogs\<close> requests issued so far.
\<close>

record fetch_state =
  chunkSize :: int
  currentBlock :: int
  allLogs :: "Log list"
  limits :: "string \<rightharpoonup> int"
  requests :: "LogFilter list"

text \<open>
  One pass through the loop body: the request for \<open>[currentBlock, rangeEnd]\<close>, then
  either the logs are appended and the cursor moves past \<open>rangeEnd\<close>, or a block range
  error halves the chunk size (not below 100), caches it and leaves the cursor, or any
  other error is thrown (\<open>Some err\<close>).
\<close>

definition fetch_chunk ::
  "RpcProvider \<Rightarrow> string \<Rightarrow> string \<Rightarrow> string list \<Rightarrow> int \<Rightarrow> fetch_state \<Rightarrow> error option \<times> fetch_state"
where
  "fetch_chunk P pid contractAddr topics toBlock s =
     (let rangeEnd = min (currentBlock s + chunkSize s - 1) toBlock;
          flt = \<lparr>flt_address = contractAddr, flt_topics = [topics],
                 flt_fromBlock = currentBlock s, flt_toBlock = rangeEnd\<rparr>;
          s1 = s\<lparr>requests := requests s @ [flt]\<rparr>
      in
        (case getLogs P (length (requests s)) flt of
           Inr logs \<Rightarrow>
             (None, s1\<lparr>allLogs := allLogs s @ logs, currentBlock := rangeEnd + 1\<rparr>)
         | Inl err \<Rightarrow>
             if isBlockRangeError err then
               (None, s1\<lparr>chunkSize := max (chunkSize s div 2) 100,
                          limits := (limits s)(pid \<mapsto> max (chunkSize s div 2) 100)\<rparr>)
             else (Some err, s1)))"

text \<open>
  The loop, with fuel: every request uses one unit, and \<open>None\<close> means the fuel ran out
  while \<open>currentBlock \<le> toBlock\<close> still held.
\<close>

fun fetch_loop ::
  "nat \<Rightarrow> RpcProvider \<Rightarrow> string \<Rightarrow> string \<Rightarrow> string list \<Rightarrow> int \<Rightarrow> fetch_state
     \<Rightarrow> (error option \<times> fetch_state) option"
where
  "fetch_loop 0 P pid contractAddr topics toBlock s =
     (if currentBlock s \<le> toBlock then None else Some (None, s))"
| "fetch_loop (Suc fuel) P pid contractAddr topics toBlock s =
     (if currentBlock s \<le> toBlock then
        (case fetch_chunk P pid contractAddr topics toBlock s of
           (Some err, s') \<Rightarrow> Some (Some err, s')
         | (None, s') \<Rightarrow> fetch_loop fuel P pid contractAddr topics toBlock s')
      else Some (None, s))"

text \<open>
  \<open>RetryOperation.mainError\<close> of the retry library behind p-retry: of the errors of
  the failed attempts, the one whose message has occurred most often, the latest one
  among equals.
\<close>

fun mainError_scan :: "error list \<Rightarrow> error list \<Rightarrow> error option \<Rightarrow> nat \<Rightarrow> error option" where
  "mainError_scan seen [] mainErr mainErrorCount = mainErr"
| "mainError_scan seen (e # es) mainErr mainErrorCount =
     (let count = length (filter (\<lambda>x. error_text x = error_text e) seen) + 1 in
      if count \<ge> mainErrorCount
      then mainError_scan (seen @ [e]) es (Some e) count
      else mainError_scan (seen @ [e]) es mainErr mainErrorCount)"

definition mainError :: "error list \<Rightarrow> error option" where
  "mainError errs = mainError_scan [] errs None 0"

text \<open>
  \<open>retry(() => getBlock(blockNum), {retries: 3, ...})\<close> through p-retry: the first
  attempt and up to \<open>retries\<close> more, with the errors of the failed attempts so far. A
  rejection that is not an \<open>Error\<close> ends the attempts at once with a \<open>TypeError\<close>;
  when the attempts are used up the rejection passed on is \<open>mainError\<close>. The endpoint's
  \<open>Error\<close> rejections are taken to be neither \<open>AbortError\<close> nor \<open>TypeError\<close>, which
  p-retry does not retry; the waiting between attempts is not modelled. The result comes
  with the list of requests made.
\<close>

definition non_error_thrown :: "error \<Rightarrow> error" where
  "non_error_thrown e =
     Error (''Non-error was thrown: '' @ [CHR 0x22] @ error_text e @ [CHR 0x22] @
            ''. You should only throw errors.'')"

fun getBlock_retry ::
  "RpcProvider \<Rightarrow> int \<Rightarrow> nat \<Rightarrow> nat \<Rightarrow> error list \<Rightarrow> (error + int option) \<times> int list"
where
  "getBlock_retry P blockNum 0 attempt errs =
     (case getBlock P blockNum attempt of
        Inr block \<Rightarrow> (Inr block, [blockNum])
      | Inl e \<Rightarrow>
          if \<not> instanceofError e then (Inl (non_error_thrown e), [blockNum])
          else
            (Inl (case mainError (errs @ [e]) of Some m \<Rightarrow> m | None \<Rightarrow> e), [blockNum]))"
| "getBlock_retry P blockNum (Suc retriesLeft) attempt errs =
     (case getBlock P blockNum attempt of
        Inr block \<Rightarrow> (Inr block, [blockNum])
      | Inl e \<Rightarrow>
          if \<not> instanceofError e then (Inl (non_error_thrown e), [blockNum])
          else
            (case getBlock_retry P blockNum retriesLeft (Suc attempt) (errs @ [e]) of
               (r, reqs) \<Rightarrow> (r, blockNum # reqs)))"

text \<open>
  The timestamps of the uncached blocks. The source starts the requests together
  (\<open>Promise.all\<close>) and each of them runs to its end whatever happens to the others.
  Here they are listed block by block; the cache is the one after all of them have
  settled, and the rejection passed on is that of the first block of the list whose
  attempts fail (which of several rejections comes first in time is not modelled).
\<close>

fun fetch_timestamps ::
  "RpcProvider \<Rightarrow> int list \<Rightarrow> (int \<rightharpoonup> int) \<Rightarrow> int list \<Rightarrow> error option \<times> (int \<rightharpoonup> int) \<times> int list"
where
  "fetch_timestamps P [] cache reqs = (None, cache, reqs)"
| "fetch_timestamps P (blockNum # rest) cache reqs =
     (case getBlock_retry P blockNum 3 0 [] of
        (Inl e, rs) \<Rightarrow>
          (case fetch_timestamps P rest cache (reqs @ rs) of
             (later, cache', reqs') \<Rightarrow> (Some e, cache', reqs'))
      | (Inr None, rs) \<Rightarrow> fetch_timestamps P rest cache (reqs @ rs)
      | (Inr (Some timestamp), rs) \<Rightarrow>
          fetch_timestamps P rest (cache(blockNum \<mapsto> timestamp)) (reqs @ rs))"

text \<open>\<open>[...new Set(xs)]\<close>: the distinct elements in the order of their first occurrence.\<close>

definition unique :: "'a list \<Rightarrow> 'a list" where
  "unique xs = rev (remdups (rev xs))"

text \<open>The last loop of \<open>enrichWithTimestamps\<close>: decode, skip, attach the timestamp.\<close>

fun enrich_logs :: "Interface \<Rightarrow> (int \<rightharpoonup> int) \<Rightarrow> Log list \<Rightarrow> error + DecodedEvent list" where
  "enrich_logs iface cache [] = Inr []"
| "enrich_logs iface cache (log # logs) =
     (case decode iface log of
        Inl e \<Rightarrow> Inl e
      | Inr None \<Rightarrow> enrich_logs iface cache logs
      | Inr (Some decodedEvent) \<Rightarrow>
          (case cache (raw_blockNumber log) of
             None \<Rightarrow> enrich_logs iface cache logs
           | Some ts \<Rightarrow>
               (case enrich_logs iface cache logs of
                  Inl e \<Rightarrow> Inl e
                | Inr enrichedEvents \<Rightarrow>
                    Inr (\<lparr>contractAddress = contractAddress decodedEvent,
                          blockNumber = blockNumber decodedEvent,
                          blockTimestamp = ts,
                          transactionHash = transactionHash decodedEvent,
                          logIndex = logIndex decodedEvent,
                          eventName = eventName decodedEvent,
                          eventData = eventData decodedEvent\<rparr> # enrichedEvents))))"

definition enrichWithTimestamps ::
  "Log list \<Rightarrow> EventFetcher \<Rightarrow> (error + DecodedEvent list) \<times> EventFetcher \<times> int list"
where
  "enrichWithTimestamps logs f =
     (if length logs = 0 then (Inr [], f, [])
      else
        (let uniqueBlockNumbers = unique (map raw_blockNumber logs);
             uncachedBlockNumbers =
               filter (\<lambda>blockNum. blockTimestampCache f blockNum = None) uniqueBlockNumbers
         in
           (case fetch_timestamps (provider f) uncachedBlockNumbers (blockTimestampCache f) [] of
              (Some e, cache, reqs) \<Rightarrow> (Inl e, f\<lparr>blockTimestampCache := cache\<rparr>, reqs)
            | (None, cache, reqs) \<Rightarrow>
                (enrich_logs (decoder f) cache logs, f\<lparr>blockTimestampCache := cache\<rparr>, reqs))))"

text \<open>What a fetch asked of the endpoint: the \<open>getLogs\<close> filters and the \<open>getBlock\<close> numbers.\<close>

record rpc_trace =
  getLogs_calls :: "LogFilter list"
  getBlock_calls :: "int list"

definition fetchEvents ::
  "nat \<Rightarrow> string \<Rightarrow> string list \<Rightarrow> int \<Rightarrow> int \<Rightarrow> EventFetcher
     \<Rightarrow> ((error + DecodedEvent list) \<times> EventFetcher \<times> rpc_trace) option"
where
  "fetchEvents fuel contractAddr eventNames fromBlock toBlock f =
     (let chunk = current_chunkSize f in
      case topic_hashes (decoder f) eventNames of
        Inl e \<Rightarrow> Some (Inl e, f, \<lparr>getLogs_calls = [], getBlock_calls = []\<rparr>)
      | Inr topics \<Rightarrow>
          (case fetch_loop fuel (provider f) (providerId f) contractAddr topics toBlock
                  \<lparr>chunkSize = chunk, currentBlock = fromBlock, allLogs = [],
                   limits = blockRangeLimits f, requests = []\<rparr> of
             None \<Rightarrow> None
           | Some (Some e, s) \<Rightarrow>
               Some (Inl e, f\<lparr>blockRangeLimits := limits s\<rparr>,
                     \<lparr>getLogs_calls = requests s, getBlock_calls = []\<rparr>)
           | Some (None, s) \<Rightarrow>
               (case enrichWithTimestamps (allLogs s) (f\<lparr>blockRangeLimits := limits s\<rparr>) of
                  (r, f', reqs) \<Rightarrow>
                    Some (r, f', \<lparr>getLogs_calls = requests s, getBlock_calls = reqs\<rparr>))))"

section \<open>Indexer (\<open>core/indexer.ts\<close>)\<close>

datatype Chain = ethereum | polygon | arbitrum | optimism | base | bsc

fun CHAIN_IDS :: "Chain \<Rightarrow> int" where
  "CHAIN_IDS ethereum = 1"
| "CHAIN_IDS polygon = 137"
| "CHAIN_IDS arbitrum = 42161"
| "CHAIN_IDS optimism = 10"
| "CHAIN_IDS base = 8453"
| "CHAIN_IDS bsc = 56"

record ContractConfig =
  cc_address :: string
  cc_name :: "string option"
  cc_events :: "string list"
  cc_from_block :: "int option"
  cc_abi :: "string option"

record OptionsConfig =
  batch_size :: int
  confirmations :: int
  poll_interval :: int
  max_retries :: int

record Config =
  chain :: Chain
  contracts :: "ContractConfig list"
  options :: OptionsConfig

record Indexer =
  config :: Config
  storage :: SQLiteAdapter
  providerPool :: ProviderPool
  running :: bool

text \<open>
  What lies outside the indexer during one operation: the endpoint behind each provider
  URL, the ABI lookup (\<open>ABIFetcher.getABI\<close>), \<open>Date.now()\<close> at the \<open>k\<close>-th call on
  the pool, and the store's environment.
\<close>

record environment =
  rpc :: "string \<Rightarrow> RpcProvider"
  getABI :: "string \<Rightarrow> int \<Rightarrow> string option \<Rightarrow> error + Interface"
  date_now :: "nat \<Rightarrow> int"
  store :: store_env

text \<open>The \<open>catch\<close> block of \<open>indexBlocks\<close>.\<close>

definition indexBlocks_catch ::
  "environment \<Rightarrow> ProviderInfo \<Rightarrow> error \<Rightarrow> Indexer \<Rightarrow> rpc_trace
     \<Rightarrow> (error + unit) \<times> Indexer \<times> rpc_trace"
where
  "indexBlocks_catch env info err ix tr =
     (case reportFailure (date_now env 2) (info_id info) err (providerPool ix) of
        (Inl e, pool') \<Rightarrow> (Inl e, ix\<lparr>providerPool := pool'\<rparr>, tr)
      | (Inr _, pool') \<Rightarrow>
          (Inl (RPCError (''Failed to index blocks: '' @ error_text err) (Some (info_id info))),
           ix\<lparr>providerPool := pool'\<rparr>, tr))"

definition no_trace :: rpc_trace where
  "no_trace = \<lparr>getLogs_calls = [], getBlock_calls = []\<rparr>"

definition indexBlocks ::
  "nat \<Rightarrow> environment \<Rightarrow> ContractConfig \<Rightarrow> int \<Rightarrow> int \<Rightarrow> Indexer
     \<Rightarrow> ((error + unit) \<times> Indexer \<times> rpc_trace) option"
where
  "indexBlocks fuel env contractConfig fromBlock toBlock ix =
     (let chainId = CHAIN_IDS (chain (config ix));
          contractAddr = toLowerCase (cc_address contractConfig)
      in
      case getProvider (date_now env 0) (providerPool ix) of
        (Inl e, pool1) \<Rightarrow> Some (Inl e, ix\<lparr>providerPool := pool1\<rparr>, no_trace)
      | (Inr info, pool1) \<Rightarrow>
          (let ix1 = ix\<lparr>providerPool := pool1\<rparr> in
           case getABI env contractAddr chainId (cc_abi contractConfig) of
             Inl e \<Rightarrow> Some (indexBlocks_catch env info e ix1 no_trace)
           | Inr iface \<Rightarrow>
               (let fetcher = new_EventFetcher (rpc env (info_url info)) (info_id info) iface
                                (Some (batch_size (options (config ix))))
                in
                case fetchEvents fuel contractAddr (cc_events contractConfig) fromBlock toBlock fetcher of
                  None \<Rightarrow> None
                | Some (Inl e, f', tr) \<Rightarrow> Some (indexBlocks_catch env info e ix1 tr)
                | Some (Inr evs, f', tr) \<Rightarrow>
                    (case reportSuccess (date_now env 1) (info_id info) pool1 of
                       (Inl e, pool2) \<Rightarrow>
                         Some (indexBlocks_catch env info e (ix\<lparr>providerPool := pool2\<rparr>) tr)
                     | (Inr _, pool2) \<Rightarrow>
                         (let ix2 = ix\<lparr>providerPool := pool2\<rparr> in
                          case updateSyncStateAndInsertEvents (store env) contractAddr chainId
                                 toBlock evs (storage ix2) of
                            (Inl e, st') \<Rightarrow>
                              Some (indexBlocks_catch env info e (ix2\<lparr>storage := st'\<rparr>) tr)
                          | (Inr _, st') \<Rightarrow> Some (Inr (), ix2\<lparr>storage := st'\<rparr>, tr))))))"

text \<open>
  The first part of \<open>watchContract\<close>: the value of \<open>currentBlock\<close> when the polling
  loop starts.
\<close>

definition watchContract_currentBlock ::
  "environment \<Rightarrow> ContractConfig \<Rightarrow> Indexer \<Rightarrow> (error + int) \<times> Indexer"
where
  "watchContract_currentBlock env contractConfig ix =
     (let contractAddr = toLowerCase (cc_address contractConfig) in
      case cc_from_block contractConfig of
        None \<Rightarrow>
          (case getProvider (date_now env 0) (providerPool ix) of
             (Inl e, pool1) \<Rightarrow> (Inl e, ix\<lparr>providerPool := pool1\<rparr>)
           | (Inr info, pool1) \<Rightarrow>
               (let failed = (\<lambda>err pool.
                      (case reportFailure (date_now env 2) (info_id info) err pool of
                         (Inl e, pool') \<Rightarrow> (Inl e, ix\<lparr>providerPool := pool'\<rparr>)
                       | (Inr _, pool') \<Rightarrow>
                           (Inl (RPCError (''Failed to get current block number: '' @ error_text err)
                                   (Some (info_id info))),
                            ix\<lparr>providerPool := pool'\<rparr>)))
                in
                case getBlockNumber (rpc env (info_url info)) 0 of
                  Inl err \<Rightarrow> failed err pool1
                | Inr head \<Rightarrow>
                    (case reportSuccess (date_now env 1) (info_id info) pool1 of
                       (Inl err, pool2) \<Rightarrow> failed err pool2
                     | (Inr _, pool2) \<Rightarrow> (Inr head, ix\<lparr>providerPool := pool2\<rparr>))))
      | Some from_block \<Rightarrow>
          (case getLastSyncedBlock (store env) contractAddr (storage ix) of
             Inl e \<Rightarrow> (Inl e, ix)
           | Inr lastSyncedBlock \<Rightarrow>
               (case lastSyncedBlock of
                  Some lastBlock \<Rightarrow>
                    if lastBlock \<ge> from_block then (Inr (lastBlock + 1), ix)
                    else (Inr from_block, ix)
                | None \<Rightarrow> (Inr from_block, ix))))"

section \<open>Concrete scenarios\<close>

text \<open>The mock interface of the fetcher's unit tests: two known events, one decodable shape.\<close>

definition transferTopic :: string where
  "transferTopic = ''0xddf252ad1be2c89b69c2b068fc378daa952ba7f163c4a11628f55a4df523b3ef''"

definition approvalTopic :: string where
  "approvalTopic = ''0x8c5be1e5ebec7d5bd14f71427d1e84f3dd0314c0f7b2291e5b200ac8c7c3b925''"

definition test_interface :: Interface where
  "test_interface =
     \<lparr>parseLog = (\<lambda>topics data.
        (case topics of
           [] \<Rightarrow> ParseNull
         | t # _ \<Rightarrow>
             if t \<noteq> transferTopic then ParseNull
             else if data = ''0x'' then ParseThrows (Error ''data out-of-bounds'')
             else Parsed ''Transfer'' (Some [(''value'', VBigInt 1000000000000000000)]))),
      getEvent = (\<lambda>name.
        if name = ''Transfer'' then Some transferTopic
        else if name = ''Approval'' then Some approvalTopic
        else None)\<rparr>"

definition test_contract :: string where
  "test_contract = ''0x1f9840a85d5af5bf1d1762f925bdaddc4201f984''"

definition unknown_log :: Log where
  "unknown_log =
     \<lparr>raw_address = test_contract, raw_topics = [''0x00''], raw_data = ''0x'',
      raw_blockNumber = 17000100, raw_transactionHash = ''0xabc'', raw_index = 0\<rparr>"

definition malformed_log :: Log where
  "malformed_log =
     \<lparr>raw_address = test_contract, raw_topics = [transferTopic], raw_data = ''0x'',
      raw_blockNumber = 17000100, raw_transactionHash = ''0xdef'', raw_index = 1\<rparr>"

text \<open>An indexer over one endpoint, a contract configured with \<open>from_block\<close>, a quiet chain.\<close>

definition uni_contract :: ContractConfig where
  "uni_contract =
     \<lparr>cc_address = ''0x1f9840a85d5aF5bf1D1762F925BDADdC4201F984'',
      cc_name = Some ''UNI Token'', cc_events = [''Transfer''],
      cc_from_block = Some 19000000, cc_abi = None\<rparr>"

definition test_config :: Config where
  "test_config =
     \<lparr>chain = ethereum, contracts = [uni_contract],
      options = \<lparr>batch_size = 2000, confirmations = 12, poll_interval = 15000, max_retries = 5\<rparr>\<rparr>"

definition single_pool :: ProviderPool where
  "single_pool =
     projr (new_ProviderPool [\<lparr>cfg_url = ''http://localhost:8545'', cfg_priority = 1\<rparr>] None None)"

definition test_indexer :: "SQLiteAdapter \<Rightarrow> Indexer" where
  "test_indexer a = \<lparr>config = test_config, storage = a, providerPool = single_pool, running = True\<rparr>"

definition synced_adapter :: SQLiteAdapter where
  "synced_adapter =
     \<lparr>db = Some \<lparr>events = [],
                  sync_state = [test_contract \<mapsto>
                    \<lparr>chain_id = 1, last_block = 19000050, last_sync = 1700000000,
                     status = ''active''\<rparr>]\<rparr>\<rparr>"

definition quiet_rpc :: RpcProvider where
  "quiet_rpc =
     \<lparr>getLogs = (\<lambda>k flt. Inr []),
      getBlock = (\<lambda>n k. Inr (Some 1678900000)),
      getBlockNumber = (\<lambda>k. Inr 19000100)\<rparr>"

definition quiet_store :: store_env where
  "quiet_store = no_faults (\<lambda>k. 1700000000)"

definition quiet_env :: environment where
  "quiet_env =
     \<lparr>rpc = (\<lambda>u. quiet_rpc),
      getABI = (\<lambda>a c m. Inr test_interface),
      date_now = (\<lambda>k. 1700000000000 + int k),
      store = quiet_store\<rparr>"

text \<open>
  Endpoints for the chunking scenarios: one whose first answer is a block range error
  and whose later answers are empty, and one that only ever answers with that error.
\<close>

definition too_large_once :: RpcProvider where
  "too_large_once =
     \<lparr>getLogs = (\<lambda>k flt. if k = 0 then Inl (Error ''block range too large'') else Inr []),
      getBlock = (\<lambda>n k. Inr (Some 1678900000)),
      getBlockNumber = (\<lambda>k. Inr 17002012)\<rparr>"

definition always_too_large :: RpcProvider where
  "always_too_large =
     \<lparr>getLogs = (\<lambda>k flt. Inl (Error ''block range too large'')),
      getBlock = (\<lambda>n k. Inr (Some 1678900000)),
      getBlockNumber = (\<lambda>k. Inr 17002012)\<rparr>"

definition window_of :: "LogFilter \<Rightarrow> int \<times> int" where
  "window_of flt = (flt_fromBlock flt, flt_toBlock flt)"

text \<open>A fetcher configured with \<open>batch_size: 10\<close>, as in the live-test configuration.\<close>

definition small_batch_fetcher :: EventFetcher where
  "small_batch_fetcher = new_EventFetcher too_large_once ''test-provider'' test_interface (Some 10)"

definition small_batch_after :: EventFetcher where
  "small_batch_after =
     fst (snd (the (fetchEvents 2 test_contract [''Transfer''] 17000000 17000050
                      small_batch_fetcher)))"

text \<open>
  A fetcher's lifetime: fetches one after the other, each a contract address, event
  names and a window.
\<close>

fun fetch_all ::
  "nat \<Rightarrow> (string \<times> string list \<times> int \<times> int) list \<Rightarrow> EventFetcher \<Rightarrow> EventFetcher option"
where
  "fetch_all fuel [] f = Some f"
| "fetch_all fuel ((contractAddr, eventNames, fromBlock, toBlock) # rest) f =
     (case fetchEvents fuel contractAddr eventNames fromBlock toBlock f of
        None \<Rightarrow> None
      | Some (r, f', tr) \<Rightarrow> fetch_all fuel rest f')"

text \<open>One iteration of the quiet indexer over a window of 89 blocks, on a fresh store.\<close>

definition quiet_indexer :: Indexer where
  "quiet_indexer = test_indexer (init_adapter None)"

definition quiet_run :: "(error + unit) \<times> Indexer \<times> rpc_trace" where
  "quiet_run = the (indexBlocks 1 quiet_env uni_contract 19000000 19000088 quiet_indexer)"

text \<open>
  The loop of \<open>fetchEvents\<close> keeps its chunk size equal to the cached limit of the
  provider, or to the initial chunk size while nothing is cached.
\<close>

definition chunk_inv :: "string \<Rightarrow> int \<Rightarrow> fetch_state \<Rightarrow> bool" where
  "chunk_inv pid init s = (chunkSize s = (case limits s pid of Some c \<Rightarrow> c | None \<Rightarrow> init))"

section \<open>Properties of the storage engine\<close>

lemma insert_or_ignore_length:
  "length (snd (insert_or_ignore r rows)) = length rows + fst (insert_or_ignore r rows)"
  by (simp add: insert_or_ignore_def)

lemma insert_or_ignore_prefix:
  "take (length rows) (snd (insert_or_ignore r rows)) = rows"
  by (simp add: insert_or_ignore_def)

lemma insert_or_ignore_has_key:
  "list_ex (same_key r) (snd (insert_or_ignore r rows))"
  by (simp add: insert_or_ignore_def list_ex_iff same_key_def)

lemma insert_or_ignore_set:
  "set (snd (insert_or_ignore r rows)) \<subseteq> insert r (set rows)"
  by (auto simp add: insert_or_ignore_def)

lemma insert_or_ignore_mono:
  "set rows \<subseteq> set (snd (insert_or_ignore r rows))"
  by (auto simp add: insert_or_ignore_def)

lemma insertEach_prefix:
  "insertEach env k evs rows = Inr rows' \<Longrightarrow> take (length rows) rows' = rows"
proof (induction evs arbitrary: k rows)
  case Nil
  then show ?case by simp
next
  case (Cons e es)
  from Cons.prems obtain rows1 where
    r1: "rows1 = snd (insert_or_ignore (row_of_event e (clock env k)) rows)"
    and rec: "insertEach env (Suc k) es rows1 = Inr rows'"
    by (auto split: option.splits)
  have a: "take (length rows1) rows' = rows1" using Cons.IH rec by blast
  have b: "take (length rows) rows1 = rows" using r1 insert_or_ignore_prefix by simp
  have "length rows \<le> length rows1" using r1 by (simp add: insert_or_ignore_length)
  then have "take (length rows) rows' = take (length rows) (take (length rows1) rows')"
    by (simp add: min_def)
  then show ?case using a b by simp
qed

lemma insertEach_keys:
  "insertEach env k evs rows = Inr rows' \<Longrightarrow> set rows \<subseteq> set rows' \<and>
     (\<forall>e \<in> set evs. \<exists>x \<in> set rows'. transaction_hash x = transactionHash e \<and> log_index x = logIndex e)"
proof (induction evs arbitrary: k rows)
  case Nil
  then show ?case by simp
next
  case (Cons e es)
  from Cons.prems obtain rows1 where
    r1: "rows1 = snd (insert_or_ignore (row_of_event e (clock env k)) rows)"
    and rec: "insertEach env (Suc k) es rows1 = Inr rows'"
    by (auto split: option.splits)
  from Cons.IH[OF rec] have ih: "set rows1 \<subseteq> set rows'"
    "\<forall>e \<in> set es. \<exists>x \<in> set rows'. transaction_hash x = transactionHash e \<and> log_index x = logIndex e"
    by auto
  have "\<exists>x \<in> set rows1. transaction_hash x = transactionHash e \<and> log_index x = logIndex e"
    using insert_or_ignore_has_key[of "row_of_event e (clock env k)" rows] r1
    by (auto simp add: list_ex_iff same_key_def row_of_event_def)
  moreover have "set rows \<subseteq> set rows1" using r1 insert_or_ignore_mono by simp
  ultimately show ?case using ih by auto
qed

lemma insertEach_origin:
  "insertEach env k evs rows = Inr rows' \<Longrightarrow>
     \<forall>x \<in> set rows'. x \<in> set rows \<or> (\<exists>e \<in> set evs. \<exists>t. x = row_of_event e t)"
proof (induction evs arbitrary: k rows)
  case Nil
  then show ?case by simp
next
  case (Cons e es)
  from Cons.prems obtain rows1 where
    r1: "rows1 = snd (insert_or_ignore (row_of_event e (clock env k)) rows)"
    and rec: "insertEach env (Suc k) es rows1 = Inr rows'"
    by (auto split: option.splits)
  from Cons.IH[OF rec] have ih:
    "\<forall>x \<in> set rows'. x \<in> set rows1 \<or> (\<exists>e \<in> set es. \<exists>t. x = row_of_event e t)" .
  have "set rows1 \<subseteq> insert (row_of_event e (clock env k)) (set rows)"
    using r1 insert_or_ignore_set by simp
  then show ?case using ih by (auto; blast)
qed

lemma insertEach_no_fault:
  "(\<forall>j. fault env j = None) \<Longrightarrow> \<exists>rows'. insertEach env k evs rows = Inr rows'"
  by (induction evs arbitrary: k rows) auto

lemma commit_rolled_back:
  "updateSyncStateAndInsertEvents env addr chainId blk evs a = (Inl err, a') \<Longrightarrow> a' = a"
  by (auto simp add: updateSyncStateAndInsertEvents_def split: sum.splits)

lemma commit_applied:
  assumes "updateSyncStateAndInsertEvents env addr chainId blk evs a = (Inr u, a')"
  shows "\<exists>d d' r. db a = Some d \<and> db a' = Some d' \<and>
           sync_state d' addr = Some r \<and> last_block r = blk \<and> last_sync r = clock env 1 \<and>
           (\<forall>x. x \<noteq> addr \<longrightarrow> sync_state d' x = sync_state d x) \<and>
           take (length (events d)) (events d') = events d \<and>
           (\<forall>e \<in> set evs. \<exists>x \<in> set (events d').
               transaction_hash x = transactionHash e \<and> log_index x = logIndex e) \<and>
           (\<forall>x \<in> set (events d'). x \<in> set (events d) \<or> (\<exists>e \<in> set evs. \<exists>t. x = row_of_event e t))"
proof -
  from assms obtain d d' where d: "db a = Some d"
    and tx: "updateTransaction env addr chainId blk evs d = Inr d'"
    and a': "a' = a\<lparr>db := Some d'\<rparr>"
    by (auto simp add: updateSyncStateAndInsertEvents_def ensureDb_def split: option.splits sum.splits)
  define d1 where "d1 = upsert_sync addr chainId blk (clock env 1) d"
  have ev1: "events d1 = events d" by (simp add: d1_def upsert_sync_def)
  obtain r where r: "sync_state d1 addr = Some r" "last_block r = blk" "last_sync r = clock env 1"
    by (cases "sync_state d addr") (simp_all add: d1_def upsert_sync_def)
  have other: "\<forall>x. x \<noteq> addr \<longrightarrow> sync_state d1 x = sync_state d x"
    by (simp add: d1_def upsert_sync_def)
  show ?thesis
  proof (cases "length evs > 0")
    case False
    then have "d' = d1" using tx
      by (auto simp add: updateTransaction_def d1_def Let_def split: option.splits)
    moreover have "evs = []" using False by simp
    ultimately show ?thesis using d a' r other ev1 by simp
  next
    case True
    then obtain rows' where ie: "insertEach env 3 evs (events d1) = Inr rows'"
      and d': "d' = d1\<lparr>events := rows'\<rparr>"
      using tx
      by (auto simp add: updateTransaction_def d1_def Let_def split: option.splits sum.splits)
    have p1: "take (length (events d)) rows' = events d"
      using insertEach_prefix[OF ie] ev1 by simp
    have p2: "\<forall>e \<in> set evs. \<exists>x \<in> set rows'.
               transaction_hash x = transactionHash e \<and> log_index x = logIndex e"
      using insertEach_keys[OF ie] by blast
    have p3: "\<forall>x \<in> set rows'. x \<in> set (events d) \<or> (\<exists>e \<in> set evs. \<exists>t. x = row_of_event e t)"
      using insertEach_origin[OF ie] ev1 by simp
    show ?thesis using d a' d' r other p1 p2 p3 by simp
  qed
qed

lemma commit_total:
  assumes "db a = Some d" and "\<forall>k. fault env k = None"
  shows "\<exists>a'. updateSyncStateAndInsertEvents env addr chainId blk evs a = (Inr (), a')"
proof -
  obtain rows' where "insertEach env 3 evs (events (upsert_sync addr chainId blk (clock env 1) d)) = Inr rows'"
    using insertEach_no_fault[OF assms(2)] by blast
  then show ?thesis using assms
    by (simp add: updateSyncStateAndInsertEvents_def ensureDb_def updateTransaction_def Let_def)
qed

lemma commit_scenario:
  "(case updateSyncStateAndInsertEvents (no_faults c) ''0x1234'' 1 101
            [commit_event_100, commit_event_101] (init_adapter None) of
      (r, a') \<Rightarrow>
        r = Inr () \<and>
        getLastSyncedBlock (no_faults c1) ''0x1234'' a' = Inr (Some 101) \<and>
        map_sum id length (queryEvents (no_faults c2) (by_contract ''0x1234'') a') = Inr 2)"
  by (simp add: updateSyncStateAndInsertEvents_def ensureDb_def updateTransaction_def Let_def
      no_faults_def init_adapter_def init_database_def upsert_sync_def insert_or_ignore_def
      same_key_def row_of_event_def commit_event_100_def commit_event_101_def
      getLastSyncedBlock_def queryEvents_def by_contract_def row_matches_def truthy_string_def
      limit_offset_def)

lemma has_key_insert:
  "has_key (snd (insert_or_ignore (row_of_event e t) rows)) e"
  by (simp add: has_key_def insert_or_ignore_def same_key_def row_of_event_def list_ex_iff)

lemma has_key_mono:
  "has_key rows x \<Longrightarrow> has_key (snd (insert_or_ignore r rows)) x"
  by (auto simp add: has_key_def insert_or_ignore_def list_ex_iff)

lemma insert_known:
  "has_key rows e \<Longrightarrow> insert_or_ignore (row_of_event e t) rows = (0, rows)"
  by (auto simp add: has_key_def insert_or_ignore_def same_key_def row_of_event_def list_ex_iff)

lemma insert_unknown:
  "\<not> has_key rows e \<Longrightarrow> insert_or_ignore (row_of_event e t) rows = (1, rows @ [row_of_event e t])"
  by (auto simp add: has_key_def insert_or_ignore_def same_key_def row_of_event_def list_ex_iff)

lemma insertMany_count:
  "insertMany env k evs cnt rows = Inr (n, rows') \<Longrightarrow>
     n + length rows = cnt + length rows' \<and> length rows \<le> length rows' \<and>
     (\<forall>e. has_key rows e \<longrightarrow> has_key rows' e) \<and> (\<forall>e \<in> set evs. has_key rows' e)"
proof (induction evs arbitrary: k cnt rows)
  case Nil
  then show ?case by simp
next
  case (Cons e es)
  let ?r = "row_of_event e (clock env k)"
  from Cons.prems have nf: "fault env k = None" by (auto split: option.splits)
  show ?case
  proof (cases "has_key rows e")
    case True
    then have "insertMany env (Suc k) es cnt rows = Inr (n, rows')"
      using Cons.prems nf by (simp add: insert_known)
    from Cons.IH[OF this] True show ?thesis by auto
  next
    case False
    then have "insertMany env (Suc k) es (cnt + 1) (rows @ [?r]) = Inr (n, rows')"
      using Cons.prems nf by (simp add: insert_unknown)
    from Cons.IH[OF this] have ih: "n + length (rows @ [?r]) = cnt + 1 + length rows'"
      "length (rows @ [?r]) \<le> length rows'"
      "\<forall>x. has_key (rows @ [?r]) x \<longrightarrow> has_key rows' x" "\<forall>x \<in> set es. has_key rows' x"
      by auto
    have a: "has_key (rows @ [?r]) e"
      using has_key_insert[of e "clock env k" rows] False by (simp add: insert_unknown)
    have b: "\<forall>x. has_key rows x \<longrightarrow> has_key (rows @ [?r]) x"
      by (auto simp add: has_key_def list_ex_iff)
    show ?thesis using ih a b by auto
  qed
qed

lemma insertMany_known:
  "\<forall>e \<in> set evs. has_key rows e \<Longrightarrow> insertMany env k evs cnt rows = Inr (n, rows') \<Longrightarrow>
     n = cnt \<and> rows' = rows"
proof (induction evs arbitrary: k)
  case Nil
  then show ?case by simp
next
  case (Cons e es)
  from Cons.prems(2) have nf: "fault env k = None" by (auto split: option.splits)
  have "has_key rows e" using Cons.prems(1) by simp
  then have "insertMany env (Suc k) es cnt rows = Inr (n, rows')"
    using Cons.prems(2) nf by (simp add: insert_known)
  then show ?case using Cons.IH Cons.prems(1) by simp
qed

lemma insertMany_fresh:
  "distinct (map (\<lambda>e. (transactionHash e, logIndex e)) evs) \<Longrightarrow>
   \<forall>e \<in> set evs. \<not> has_key rows e \<Longrightarrow>
   insertMany env k evs cnt rows = Inr (n, rows') \<Longrightarrow>
     n = cnt + length evs \<and> length rows' = length rows + length evs"
proof (induction evs arbitrary: k cnt rows)
  case Nil
  then show ?case by simp
next
  case (Cons e es)
  let ?r = "row_of_event e (clock env k)"
  from Cons.prems(3) have nf: "fault env k = None" by (auto split: option.splits)
  have ne: "\<not> has_key rows e" using Cons.prems(2) by simp
  then have rec: "insertMany env (Suc k) es (cnt + 1) (rows @ [?r]) = Inr (n, rows')"
    using Cons.prems(3) nf by (simp add: insert_unknown)
  have d: "distinct (map (\<lambda>e. (transactionHash e, logIndex e)) es)"
    using Cons.prems(1) by simp
  have "\<forall>x \<in> set es. \<not> has_key (rows @ [?r]) x"
  proof
    fix x assume x: "x \<in> set es"
    then have "\<not> has_key rows x" using Cons.prems(2) by simp
    moreover have "(transactionHash x, logIndex x) \<noteq> (transactionHash e, logIndex e)"
    proof
      assume "(transactionHash x, logIndex x) = (transactionHash e, logIndex e)"
      then have "(transactionHash e, logIndex e) \<in> (\<lambda>e. (transactionHash e, logIndex e)) ` set es"
        using x by (metis (mono_tags, lifting) image_eqI)
      then show False using Cons.prems(1) by simp
    qed
    ultimately show "\<not> has_key (rows @ [?r]) x"
      by (auto simp add: has_key_def list_ex_iff row_of_event_def)
  qed
  from Cons.IH[OF d this rec] show ?case by simp
qed

lemma insertMany_no_fault:
  "(\<forall>j. fault env j = None) \<Longrightarrow> \<exists>n rows'. insertMany env k evs cnt rows = Inr (n, rows')"
  by (induction evs arbitrary: k cnt rows) (auto split: prod.splits)

lemma insertEvents_total:
  assumes "db a = Some d" and "\<forall>k. fault env k = None"
  shows "\<exists>n rows'. insertEvents env evs a = (Inr n, a\<lparr>db := Some (d\<lparr>events := rows'\<rparr>)\<rparr>)"
proof (cases "evs = []")
  case True
  have "a\<lparr>db := Some (d\<lparr>events := events d\<rparr>)\<rparr> = a" using assms(1) by simp
  moreover have "insertEvents env evs a = (Inr 0, a)"
    using True assms(1) by (simp add: insertEvents_def ensureDb_def)
  ultimately show ?thesis by (intro exI[of _ 0] exI[of _ "events d"]) simp
next
  case False
  obtain n rows' where "insertMany env 1 evs 0 (events d) = Inr (n, rows')"
    using insertMany_no_fault[OF assms(2)] by blast
  then have "insertEvents env evs a = (Inr n, a\<lparr>db := Some (d\<lparr>events := rows'\<rparr>)\<rparr>)"
    using assms False by (simp add: insertEvents_def ensureDb_def)
  then show ?thesis by blast
qed

lemma insertEvents_Inr:
  assumes "insertEvents env evs a = (Inr n, a')"
  shows "\<exists>d rows'. db a = Some d \<and> a' = a\<lparr>db := Some (d\<lparr>events := rows'\<rparr>)\<rparr> \<and>
           n + length (events d) = length rows' \<and> (\<forall>e \<in> set evs. has_key rows' e) \<and>
           (\<forall>e. has_key (events d) e \<longrightarrow> has_key rows' e)"
proof -
  from assms obtain d where d: "db a = Some d"
    by (auto simp add: insertEvents_def ensureDb_def split: option.splits)
  show ?thesis
  proof (cases "evs = []")
    case True
    then have "n = 0" "a' = a" using assms d by (simp_all add: insertEvents_def ensureDb_def)
    moreover have "a\<lparr>db := Some (d\<lparr>events := events d\<rparr>)\<rparr> = a" using d by simp
    ultimately show ?thesis using d True by (intro exI[of _ d] exI[of _ "events d"]) simp
  next
    case False
    then obtain rows' where im: "insertMany env 1 evs 0 (events d) = Inr (n, rows')"
      and a': "a' = a\<lparr>db := Some (d\<lparr>events := rows'\<rparr>)\<rparr>"
      using assms d
      by (auto simp add: insertEvents_def ensureDb_def split: option.splits sum.splits)
    from insertMany_count[OF im] show ?thesis using d a' by auto
  qed
qed

lemma insertEvents_again:
  assumes "insertEvents env evs a = (Inr n, a')" and "db a = Some d"
    and "\<forall>e \<in> set evs. has_key (events d) e"
  shows "n = 0 \<and> a' = a"
proof (cases "evs = []")
  case True
  then show ?thesis using assms by (simp add: insertEvents_def ensureDb_def)
next
  case False
  then obtain rows' where im: "insertMany env 1 evs 0 (events d) = Inr (n, rows')"
    and a': "a' = a\<lparr>db := Some (d\<lparr>events := rows'\<rparr>)\<rparr>"
    using assms
    by (auto simp add: insertEvents_def ensureDb_def split: option.splits sum.splits)
  from insertMany_known[OF assms(3) im] have "n = 0" "rows' = events d" by simp_all
  then show ?thesis using a' assms(2) by simp
qed

lemma batch100_distinct:
  "distinct (map (\<lambda>e. (transactionHash e, logIndex e)) batch100)"
proof -
  have "inj_on (\<lambda>i. (transactionHash (batch_event i), logIndex (batch_event i))) (set [0..<100])"
    by (rule inj_onI) (simp add: batch_event_def)
  then show ?thesis
    unfolding batch100_def by (simp add: distinct_map comp_def)
qed

text \<open>
  Claim C1. \<open>updateSyncStateAndInsertEvents\<close> is one transaction. When the call throws,
  the adapter keeps the database it had: neither the upsert nor any insert is applied.
  When it returns, both effects are there: the \<open>sync_state\<close> row of the address carries
  the new \<open>last_block\<close> and the time of the upsert as \<open>last_sync\<close>, every other row of
  \<open>sync_state\<close> is as before, the stored event rows are unchanged in their places, every
  event of the batch has a row with its \<open>(transaction_hash, log_index)\<close>, and every new
  row comes from the batch. On an open database whose statements all succeed the call
  returns. On a fresh store, committing the events of blocks 100 and 101 with last block
  101 makes \<open>getLastSyncedBlock\<close> answer 101 and the query by contract address answer two
  rows.
\<close>

theorem updateSyncStateAndInsertEvents_atomic:
  "(\<forall>err a'. updateSyncStateAndInsertEvents env addr chainId blk evs a = (Inl err, a') \<longrightarrow> a' = a) \<and>
   (\<forall>u a'. updateSyncStateAndInsertEvents env addr chainId blk evs a = (Inr u, a') \<longrightarrow>
      (\<exists>d d' r. db a = Some d \<and> db a' = Some d' \<and>
         sync_state d' addr = Some r \<and> last_block r = blk \<and> last_sync r = clock env 1 \<and>
         (\<forall>x. x \<noteq> addr \<longrightarrow> sync_state d' x = sync_state d x) \<and>
         take (length (events d)) (events d') = events d \<and>
         (\<forall>e \<in> set evs. \<exists>x \<in> set (events d').
             transaction_hash x = transactionHash e \<and> log_index x = logIndex e) \<and>
         (\<forall>x \<in> set (events d'). x \<in> set (events d) \<or> (\<exists>e \<in> set evs. \<exists>t. x = row_of_event e t)))) \<and>
   (db a \<noteq> None \<and> (\<forall>k. fault env k = None) \<longrightarrow>
      (\<exists>a'. updateSyncStateAndInsertEvents env addr chainId blk evs a = (Inr (), a'))) \<and>
   (case updateSyncStateAndInsertEvents (no_faults c) ''0x1234'' 1 101
            [commit_event_100, commit_event_101] (init_adapter None) of
      (r, a') \<Rightarrow>
        r = Inr () \<and>
        getLastSyncedBlock (no_faults c1) ''0x1234'' a' = Inr (Some 101) \<and>
        map_sum id length (queryEvents (no_faults c2) (by_contract ''0x1234'') a') = Inr 2)"
proof (intro conjI allI impI)
  fix err a'
  assume "updateSyncStateAndInsertEvents env addr chainId blk evs a = (Inl err, a')"
  then show "a' = a" by (rule commit_rolled_back)
next
  fix u a'
  assume "updateSyncStateAndInsertEvents env addr chainId blk evs a = (Inr u, a')"
  then show "\<exists>d d' r. db a = Some d \<and> db a' = Some d' \<and>
         sync_state d' addr = Some r \<and> last_block r = blk \<and> last_sync r = clock env 1 \<and>
         (\<forall>x. x \<noteq> addr \<longrightarrow> sync_state d' x = sync_state d x) \<and>
         take (length (events d)) (events d') = events d \<and>
         (\<forall>e \<in> set evs. \<exists>x \<in> set (events d').
             transaction_hash x = transactionHash e \<and> log_index x = logIndex e) \<and>
         (\<forall>x \<in> set (events d'). x \<in> set (events d) \<or> (\<exists>e \<in> set evs. \<exists>t. x = row_of_event e t))"
    by (rule commit_applied)
next
  assume "db a \<noteq> None \<and> (\<forall>k. fault env k = None)"
  then show "\<exists>a'. updateSyncStateAndInsertEvents env addr chainId blk evs a = (Inr (), a')"
    using commit_total by (cases "db a") auto
next
  show "case updateSyncStateAndInsertEvents (no_faults c) ''0x1234'' 1 101
            [commit_event_100, commit_event_101] (init_adapter None) of
      (r, a') \<Rightarrow>
        r = Inr () \<and>
        getLastSyncedBlock (no_faults c1) ''0x1234'' a' = Inr (Some 101) \<and>
        map_sum id length (queryEvents (no_faults c2) (by_contract ''0x1234'') a') = Inr 2"
    by (rule commit_scenario)
qed

text \<open>
  The commit scenario run through the theorem of C1: the store is open and no statement
  fails, so the call returns, and the state it returns has the two effects.
\<close>

theorem updateSyncStateAndInsertEvents_atomic_witness:
  "\<exists>a' d' r. updateSyncStateAndInsertEvents (no_faults (\<lambda>_. 1700000500)) ''0x1234'' 1 101
              [commit_event_100, commit_event_101] (init_adapter None) = (Inr (), a') \<and>
     db a' = Some d' \<and> sync_state d' ''0x1234'' = Some r \<and> last_block r = 101 \<and>
     last_sync r = 1700000500 \<and> length (events d') = 2"
proof -
  let ?env = "no_faults (\<lambda>_. 1700000500)"
  let ?a = "init_adapter None"
  note t = updateSyncStateAndInsertEvents_atomic
             [of ?env "''0x1234''" 1 101 "[commit_event_100, commit_event_101]" ?a]
  have open_db: "db ?a \<noteq> None \<and> (\<forall>k. fault ?env k = None)"
    by (simp add: init_adapter_def no_faults_def)
  from t[THEN conjunct2, THEN conjunct2, THEN conjunct1] open_db obtain a' where
    run: "updateSyncStateAndInsertEvents ?env ''0x1234'' 1 101
            [commit_event_100, commit_event_101] ?a = (Inr (), a')"
    by blast
  from t[THEN conjunct2, THEN conjunct1, rule_format, OF run] obtain d' r where
    "db a' = Some d'" "sync_state d' ''0x1234'' = Some r" "last_block r = 101"
    "last_sync r = clock ?env 1"
    by blast
  moreover have "length (events (the (db a'))) = 2"
    using run
    by (auto simp add: updateSyncStateAndInsertEvents_def ensureDb_def updateTransaction_def Let_def
        no_faults_def init_adapter_def init_database_def upsert_sync_def insert_or_ignore_def
        same_key_def row_of_event_def commit_event_100_def commit_event_101_def)
  ultimately show ?thesis using run by (auto simp add: no_faults_def)
qed

text \<open>
  Claim C2. When a batch is inserted and then inserted again, the second call returns 0
  and leaves the adapter as the first call left it, so the number of stored rows is the
  same as after one insertion; and the count the first call returns is the number of
  rows it added. On an open database whose statements all succeed both calls return.
  For the batch of 100 events of the unit test on a fresh store, the first call returns
  100, the second returns 0, and 100 rows are stored.
\<close>

theorem insertEvents_idempotent:
  "(\<forall>n1 a1 n2 a2.
      insertEvents env1 evs a = (Inr n1, a1) \<and> insertEvents env2 evs a1 = (Inr n2, a2) \<longrightarrow>
        n2 = 0 \<and> a2 = a1 \<and>
        (\<exists>d d1. db a = Some d \<and> db a1 = Some d1 \<and>
                 n1 + length (events d) = length (events d1))) \<and>
   (db a \<noteq> None \<and> (\<forall>k. fault env1 k = None) \<and> (\<forall>k. fault env2 k = None) \<longrightarrow>
      (\<exists>n1 a1 n2 a2.
         insertEvents env1 evs a = (Inr n1, a1) \<and> insertEvents env2 evs a1 = (Inr n2, a2))) \<and>
   (case insertEvents (no_faults c1) batch100 (init_adapter None) of
      (r1, a1) \<Rightarrow>
        r1 = Inr 100 \<and>
        (case insertEvents (no_faults c2) batch100 a1 of
           (r2, a2) \<Rightarrow>
             r2 = Inr 0 \<and> map_option (\<lambda>d. length (events d)) (db a2) = Some 100))"
proof (intro conjI allI impI)
  fix n1 a1 n2 a2
  assume h: "insertEvents env1 evs a = (Inr n1, a1) \<and> insertEvents env2 evs a1 = (Inr n2, a2)"
  from insertEvents_Inr[of env1 evs a n1 a1] h obtain d rows' where
    d: "db a = Some d" and a1: "a1 = a\<lparr>db := Some (d\<lparr>events := rows'\<rparr>)\<rparr>"
    and cnt: "n1 + length (events d) = length rows'" and keys: "\<forall>e \<in> set evs. has_key rows' e"
    by blast
  have d1: "db a1 = Some (d\<lparr>events := rows'\<rparr>)" using a1 by simp
  have "\<forall>e \<in> set evs. has_key (events (d\<lparr>events := rows'\<rparr>)) e" using keys by simp
  from insertEvents_again[OF _ d1 this] h have "n2 = 0 \<and> a2 = a1" by blast
  then show "n2 = 0" "a2 = a1" by simp_all
  show "\<exists>d d1. db a = Some d \<and> db a1 = Some d1 \<and> n1 + length (events d) = length (events d1)"
    using d d1 cnt by simp
next
  assume h: "db a \<noteq> None \<and> (\<forall>k. fault env1 k = None) \<and> (\<forall>k. fault env2 k = None)"
  then obtain d where d: "db a = Some d" by auto
  from insertEvents_total[OF d, of env1 evs] h obtain n1 rows1 where
    r1: "insertEvents env1 evs a = (Inr n1, a\<lparr>db := Some (d\<lparr>events := rows1\<rparr>)\<rparr>)" by blast
  have "db (a\<lparr>db := Some (d\<lparr>events := rows1\<rparr>)\<rparr>) = Some (d\<lparr>events := rows1\<rparr>)" by simp
  from insertEvents_total[OF this, of env2 evs] h obtain n2 a2 where
    "insertEvents env2 evs (a\<lparr>db := Some (d\<lparr>events := rows1\<rparr>)\<rparr>) = (Inr n2, a2)" by blast
  with r1 show "\<exists>n1 a1 n2 a2.
         insertEvents env1 evs a = (Inr n1, a1) \<and> insertEvents env2 evs a1 = (Inr n2, a2)"
    by blast
next
  let ?a = "init_adapter None"
  have d0: "db ?a = Some init_database" by (simp add: init_adapter_def)
  have nf1: "\<forall>k. fault (no_faults c1) k = None" and nf2: "\<forall>k. fault (no_faults c2) k = None"
    by (simp_all add: no_faults_def)
  from insertEvents_total[OF d0 nf1, of batch100] obtain n1 rows1 where
    r1: "insertEvents (no_faults c1) batch100 ?a = (Inr n1, ?a\<lparr>db := Some (init_database\<lparr>events := rows1\<rparr>)\<rparr>)"
    by blast
  let ?a1 = "?a\<lparr>db := Some (init_database\<lparr>events := rows1\<rparr>)\<rparr>"
  have ne: "batch100 \<noteq> []" by (simp add: batch100_def)
  then have im: "insertMany (no_faults c1) 1 batch100 0 [] = Inr (n1, rows1)"
    using r1 nf1
    by (auto simp add: insertEvents_def ensureDb_def init_adapter_def init_database_def
        split: sum.splits)
  have "\<forall>e \<in> set batch100. \<not> has_key [] e" by (simp add: has_key_def)
  from insertMany_fresh[OF batch100_distinct this im]
  have n1: "n1 = 100" and l1: "length rows1 = 100" by (simp_all add: batch100_def)
  have d1: "db ?a1 = Some (init_database\<lparr>events := rows1\<rparr>)" by simp
  from insertEvents_total[OF d1 nf2, of batch100] obtain n2 a2 where
    r2: "insertEvents (no_faults c2) batch100 ?a1 = (Inr n2, a2)" by blast
  from insertMany_count[OF im] have "\<forall>e \<in> set batch100. has_key rows1 e"
    by blast
  then have "\<forall>e \<in> set batch100. has_key (events (init_database\<lparr>events := rows1\<rparr>)) e" by simp
  from insertEvents_again[OF r2 d1 this] have "n2 = 0" "a2 = ?a1" by simp_all
  then show "case insertEvents (no_faults c1) batch100 (init_adapter None) of
      (r1, a1) \<Rightarrow>
        r1 = Inr 100 \<and>
        (case insertEvents (no_faults c2) batch100 a1 of
           (r2, a2) \<Rightarrow>
             r2 = Inr 0 \<and> map_option (\<lambda>d. length (events d)) (db a2) = Some 100)"
    using r1 r2 n1 l1 by simp
qed

text \<open>
  The theorem of C2 at a batch of one event on a fresh store: the event is inserted once;
  the second call inserts nothing and changes nothing.
\<close>

theorem insertEvents_idempotent_witness:
  "\<exists>a1. insertEvents (no_faults (\<lambda>_. 5)) [commit_event_100] (init_adapter None) = (Inr 1, a1) \<and>
     insertEvents (no_faults (\<lambda>_. 9)) [commit_event_100] a1 = (Inr 0, a1)"
proof -
  let ?e1 = "no_faults (\<lambda>_. 5)" and ?e2 = "no_faults (\<lambda>_. 9)"
  let ?a = "init_adapter None"
  note t = insertEvents_idempotent [of ?e1 "[commit_event_100]" ?a ?e2]
  have pre: "db ?a \<noteq> None \<and> (\<forall>k. fault ?e1 k = None) \<and> (\<forall>k. fault ?e2 k = None)"
    by (simp add: init_adapter_def no_faults_def)
  from t[THEN conjunct2, THEN conjunct1] pre obtain n1 a1 n2 a2 where
    runs: "insertEvents ?e1 [commit_event_100] ?a = (Inr n1, a1) \<and>
           insertEvents ?e2 [commit_event_100] a1 = (Inr n2, a2)"
    by blast
  from t[THEN conjunct1, rule_format, OF runs] have z: "n2 = 0 \<and> a2 = a1" by blast
  have "n1 = 1" using runs
    by (simp add: insertEvents_def ensureDb_def init_adapter_def init_database_def no_faults_def
        insert_or_ignore_def)
  then show ?thesis using runs z by auto
qed

section \<open>Properties of the provider pool\<close>

lemma register_all_aux:
  "foldl (\<lambda>m i. m(f i \<mapsto> i)) m0 xs k = Some a \<Longrightarrow> (a \<in> set xs \<and> f a = k) \<or> m0 k = Some a"
proof (induction xs arbitrary: a rule: rev_induct)
  case Nil
  then show ?case by simp
next
  case (snoc x xs)
  then show ?case by (auto split: if_splits)
qed

lemma register_all_sound:
  "register_all h k = Some a \<Longrightarrow> a < length h \<and> entry_id (h ! a) = k"
  using register_all_aux[of "\<lambda>i. entry_id (h ! i)" Map.empty "[0..<length h]" k a]
  by (simp add: register_all_def)

lemma new_pool_wf:
  assumes "new_ProviderPool cfgs ft cd = Inr p"
  shows "pool_wf p"
proof -
  define h where "h = map new_entry cfgs"
  have p: "heap p = h" "providers p = register_all h"
    "providerList p = sort_key (\<lambda>i. - priority (h ! i)) [0..<length h]"
    using assms by (auto simp add: new_ProviderPool_def Let_def h_def split: if_splits)
  have "set (providerList p) = {..<length h}" using p(3) by (simp add: atLeast0LessThan)
  moreover have "distinct (providerList p)" using p(3) by simp
  moreover have "sorted (map (\<lambda>a. - priority (h ! a)) (providerList p))"
    using p(3) by simp
  ultimately show ?thesis
    using p(1,2) register_all_sound by (simp add: pool_wf_def)
qed

lemma new_pool_initial:
  assumes "new_ProviderPool cfgs ft cd = Inr p" and "a < length (heap p)"
  shows "healthy (heap p ! a) \<and> consecutiveFailures (heap p ! a) = 0"
  using assms by (auto simp add: new_ProviderPool_def Let_def new_entry_def split: if_splits)

lemma getProvider_frame:
  "heap (snd (getProvider now p)) = heap p \<and> providers (snd (getProvider now p)) = providers p \<and>
   providerList (snd (getProvider now p)) = providerList p \<and>
   failureThreshold (snd (getProvider now p)) = failureThreshold p"
  by (simp add: getProvider_def Let_def split: prod.splits option.splits)

lemma reportSuccess_frame:
  "providers (snd (reportSuccess now i p)) = providers p \<and>
   providerList (snd (reportSuccess now i p)) = providerList p \<and>
   failureThreshold (snd (reportSuccess now i p)) = failureThreshold p \<and>
   length (heap (snd (reportSuccess now i p))) = length (heap p)"
  by (simp add: reportSuccess_def split: option.splits)

lemma reportFailure_frame:
  "providers (snd (reportFailure now i err p)) = providers p \<and>
   providerList (snd (reportFailure now i err p)) = providerList p \<and>
   failureThreshold (snd (reportFailure now i err p)) = failureThreshold p \<and>
   length (heap (snd (reportFailure now i err p))) = length (heap p)"
  by (simp add: reportFailure_def Let_def split: option.splits)

lemma pool_step_frame:
  "providers (pool_step p c) = providers p \<and> providerList (pool_step p c) = providerList p \<and>
   failureThreshold (pool_step p c) = failureThreshold p \<and>
   length (heap (pool_step p c)) = length (heap p)"
  by (cases c) (simp_all add: reportSuccess_frame reportFailure_frame getProvider_frame)

lemma pool_step_static:
  assumes "a < length (heap p)"
  shows "entry_id (heap (pool_step p c) ! a) = entry_id (heap p ! a) \<and>
         priority (heap (pool_step p c) ! a) = priority (heap p ! a)"
proof (cases c)
  case (ReportSuccess i now)
  show ?thesis
  proof (cases "providers p i")
    case None
    then show ?thesis using ReportSuccess by (simp add: reportSuccess_def)
  next
    case (Some b)
    then show ?thesis using ReportSuccess assms
      by (cases "b = a") (simp_all add: reportSuccess_def)
  qed
next
  case (ReportFailure i now err)
  show ?thesis
  proof (cases "providers p i")
    case None
    then show ?thesis using ReportFailure by (simp add: reportFailure_def)
  next
    case (Some b)
    then show ?thesis using ReportFailure assms
      by (cases "b = a") (simp_all add: reportFailure_def Let_def)
  qed
next
  case (GetProvider now)
  then show ?thesis by (simp add: getProvider_frame)
qed

lemma pool_step_wf:
  assumes "pool_wf p"
  shows "pool_wf (pool_step p c)"
proof -
  let ?q = "pool_step p c"
  note fr = pool_step_frame[of p c]
  have st: "\<forall>a < length (heap p). entry_id (heap ?q ! a) = entry_id (heap p ! a) \<and>
              priority (heap ?q ! a) = priority (heap p ! a)"
    using pool_step_static by blast
  have "\<forall>a \<in> set (providerList p). a < length (heap p)"
    using assms by (auto simp add: pool_wf_def)
  then have eq: "map (\<lambda>a. - priority (heap ?q ! a)) (providerList p) =
             map (\<lambda>a. - priority (heap p ! a)) (providerList p)"
    using st by simp
  have s0: "sorted (map (\<lambda>a. - priority (heap p ! a)) (providerList p))"
    using assms by (simp add: pool_wf_def)
  have s: "sorted (map (\<lambda>a. - priority (heap ?q ! a)) (providerList ?q))"
    by (simp only: fr eq s0)
  have m: "\<forall>i a. providers ?q i = Some a \<longrightarrow> a < length (heap ?q) \<and> entry_id (heap ?q ! a) = i"
    using assms fr st by (simp add: pool_wf_def)
  have l: "set (providerList ?q) = {..<length (heap ?q)}" "distinct (providerList ?q)"
    using assms fr by (simp_all add: pool_wf_def)
  show ?thesis unfolding pool_wf_def using s m l by blast
qed

lemma pool_run_snoc: "pool_run p (calls @ [c]) = pool_step (pool_run p calls) c"
  by (simp add: pool_run_def)

lemma pool_run_wf: "pool_wf p \<Longrightarrow> pool_wf (pool_run p calls)"
  by (induction calls rule: rev_induct) (simp_all add: pool_run_def pool_step_wf)

lemma pool_run_frame:
  "providers (pool_run p calls) = providers p \<and>
   failureThreshold (pool_run p calls) = failureThreshold p \<and>
   length (heap (pool_run p calls)) = length (heap p)"
  by (induction calls rule: rev_induct) (simp_all add: pool_run_def pool_step_frame)

lemma trailing_snoc:
  "trailing_failures k (calls @ [c]) = count_step k (trailing_failures k calls) c"
  by (simp add: trailing_failures_def)

lemma health_step:
  assumes wf: "pool_wf p" and thr: "1 \<le> failureThreshold p"
    and ka: "providers p k = Some a"
    and cnt: "consecutiveFailures (heap p ! a) = n"
    and hl: "healthy (heap p ! a) \<longleftrightarrow> int n < failureThreshold p"
  shows "consecutiveFailures (heap (pool_step p c) ! a) = count_step k n c \<and>
         (healthy (heap (pool_step p c) ! a) \<longleftrightarrow> int (count_step k n c) < failureThreshold p)"
proof -
  have al: "a < length (heap p)" and ida: "entry_id (heap p ! a) = k"
    using wf ka by (auto simp add: pool_wf_def)
  show ?thesis
  proof (cases c)
    case (GetProvider now)
    then show ?thesis using cnt hl by (simp add: getProvider_frame)
  next
    case (ReportSuccess i now)
    show ?thesis
    proof (cases "providers p i")
      case None
      then have "i \<noteq> k" using ka by auto
      then show ?thesis using None ReportSuccess cnt hl by (simp add: reportSuccess_def)
    next
      case (Some b)
      have bl: "b < length (heap p)" and idb: "entry_id (heap p ! b) = i"
        using wf Some by (auto simp add: pool_wf_def)
      show ?thesis
      proof (cases "i = k")
        case True
        then have "b = a" using Some ka by simp
        then show ?thesis using True Some ReportSuccess al thr
          by (simp add: reportSuccess_def)
      next
        case False
        then have "b \<noteq> a" using ida idb by auto
        then show ?thesis using False Some ReportSuccess cnt hl
          by (simp add: reportSuccess_def)
      qed
    qed
  next
    case (ReportFailure i now err)
    show ?thesis
    proof (cases "providers p i")
      case None
      then have "i \<noteq> k" using ka by auto
      then show ?thesis using None ReportFailure cnt hl by (simp add: reportFailure_def)
    next
      case (Some b)
      have bl: "b < length (heap p)" and idb: "entry_id (heap p ! b) = i"
        using wf Some by (auto simp add: pool_wf_def)
      show ?thesis
      proof (cases "i = k")
        case True
        then have "b = a" using Some ka by simp
        then show ?thesis using True Some ReportFailure al cnt hl
          by (auto simp add: reportFailure_def Let_def)
      next
        case False
        then have "b \<noteq> a" using ida idb by auto
        then show ?thesis using False Some ReportFailure cnt hl
          by (simp add: reportFailure_def Let_def)
      qed
    qed
  qed
qed

lemma health_invariant:
  assumes new: "new_ProviderPool cfgs ft cd = Inr p0" and thr: "1 \<le> failureThreshold p0"
    and ka: "providers p0 k = Some a"
  shows "consecutiveFailures (heap (pool_run p0 calls) ! a) = trailing_failures k calls \<and>
         (healthy (heap (pool_run p0 calls) ! a) \<longleftrightarrow>
            int (trailing_failures k calls) < failureThreshold p0)"
proof (induction calls rule: rev_induct)
  case Nil
  have "a < length (heap p0)" using new_pool_wf[OF new] ka by (auto simp add: pool_wf_def)
  from new_pool_initial[OF new this] thr show ?case
    by (simp add: pool_run_def trailing_failures_def)
next
  case (snoc c calls)
  let ?p = "pool_run p0 calls"
  have wf: "pool_wf ?p" using new_pool_wf[OF new] by (rule pool_run_wf)
  have fr: "providers ?p = providers p0" "failureThreshold ?p = failureThreshold p0"
    using pool_run_frame[of p0 calls] by simp_all
  have "consecutiveFailures (heap (pool_step ?p c) ! a) =
          count_step k (trailing_failures k calls) c \<and>
        (healthy (heap (pool_step ?p c) ! a) \<longleftrightarrow>
          int (count_step k (trailing_failures k calls) c) < failureThreshold ?p)"
    by (rule health_step[OF wf]) (use fr thr ka snoc.IH in simp_all)
  then show ?case by (simp add: pool_run_snoc trailing_snoc fr)
qed

lemma reportSuccess_resets:
  assumes "pool_wf p" and "providers p k = Some a"
  shows "fst (reportSuccess now k p) = Inr () \<and>
         consecutiveFailures (heap (snd (reportSuccess now k p)) ! a) = 0 \<and>
         healthy (heap (snd (reportSuccess now k p)) ! a) \<and>
         lastSuccess (heap (snd (reportSuccess now k p)) ! a) = Some now"
proof -
  have "a < length (heap p)" using assms by (auto simp add: pool_wf_def)
  then show ?thesis using assms(2) by (simp add: reportSuccess_def)
qed

lemma scan_providers_fst:
  "fst (scan_providers p now as hs best) = hs @ filter (\<lambda>a. healthy (heap p ! a)) as"
  by (induction as arbitrary: hs best) (simp_all add: Let_def)

lemma scan_healthy:
  "fst (scan_providers p now (providerList p) [] None) = healthy_entries p"
  by (simp add: scan_providers_fst healthy_entries_def)

lemma count_weighted:
  "distinct hs \<Longrightarrow>
     count_list (concat (map (\<lambda>a. replicate (w a) a) hs)) x = (if x \<in> set hs then w x else 0)"
proof (induction hs)
  case Nil
  then show ?case by simp
next
  case (Cons h hs)
  have "count_list (replicate n h) x = (if x = h then n else 0)" for n
    by (induction n) auto
  then show ?case using Cons by auto
qed

lemma last_is_min:
  assumes "sorted (map (\<lambda>a. - f a) xs)" and "xs \<noteq> []"
  shows "(f (last xs) :: int) = Min (f ` set xs)"
proof -
  have "\<forall>x \<in> set xs. f (last xs) \<le> f x"
  proof
    fix x assume "x \<in> set xs"
    then obtain i where i: "i < length xs" "xs ! i = x" by (auto simp add: in_set_conv_nth)
    have "i \<le> length xs - 1" using i by simp
    moreover have "length xs - 1 < length (map (\<lambda>a. - f a) xs)" using assms(2) by simp
    ultimately have "map (\<lambda>a. - f a) xs ! i \<le> map (\<lambda>a. - f a) xs ! (length xs - 1)"
      using assms(1) sorted_nth_mono by blast
    then show "f (last xs) \<le> f x" using i assms(2) by (simp add: last_conv_nth)
  qed
  moreover have "f (last xs) \<in> f ` set xs" using assms(2) by simp
  ultimately show ?thesis by (intro Min_eqI[symmetric]) auto
qed

lemma healthy_entries_props:
  assumes "pool_wf p"
  shows "distinct (healthy_entries p)"
    and "set (healthy_entries p) = {a. a < length (heap p) \<and> healthy (heap p ! a)}"
    and "sorted (map (\<lambda>a. - priority (heap p ! a)) (healthy_entries p))"
  using assms by (auto simp add: pool_wf_def healthy_entries_def sorted_filter)

lemma base_priority:
  assumes "pool_wf p" and "healthy_entries p \<noteq> []"
  shows "priority (heap p ! last (healthy_entries p)) = min_healthy_priority p"
  unfolding min_healthy_priority_def
  using last_is_min[of "\<lambda>a. priority (heap p ! a)" "healthy_entries p"]
    healthy_entries_props(3)[OF assms(1)] assms(2) by simp

lemma weightedList_count:
  assumes "pool_wf p" and "healthy_entries p \<noteq> []" and "a < length (heap p)"
  shows "count_list (weightedList p (healthy_entries p)) a =
           (if healthy (heap p ! a)
            then nat (max 1 (priority (heap p ! a) - max 0 (min_healthy_priority p) + 1))
            else 0)"
proof -
  let ?w = "\<lambda>a. nat (max 1 (priority (heap p ! a) - max 0 (min_healthy_priority p) + 1))"
  have "weightedList p (healthy_entries p) =
          concat (map (\<lambda>a. replicate (?w a) a) (healthy_entries p))"
    by (simp add: weightedList_def Let_def base_priority[OF assms(1,2)])
  then show ?thesis
    using count_weighted[OF healthy_entries_props(1)[OF assms(1)], of ?w a]
      healthy_entries_props(2)[OF assms(1)] assms(3) by simp
qed

lemma weightedList_nonempty:
  assumes "hs \<noteq> []"
  shows "weightedList p hs \<noteq> []"
proof -
  obtain h rest where "hs = h # rest" using assms by (cases hs) auto
  then show ?thesis by (simp add: weightedList_def Let_def)
qed

lemma getProvider_healthy:
  assumes "healthy_entries p \<noteq> []"
  shows "getProvider now p =
           (Inr (info_of (heap p ! (weightedList p (healthy_entries p) !
                   (roundRobinIndex p mod length (weightedList p (healthy_entries p)))))),
            p\<lparr>roundRobinIndex := roundRobinIndex p + 1\<rparr>)"
proof -
  obtain hs best where sc: "scan_providers p now (providerList p) [] None = (hs, best)"
    by (cases "scan_providers p now (providerList p) [] None")
  then have "hs = healthy_entries p" using scan_healthy[of p now] by simp
  then show ?thesis using sc assms by (simp add: getProvider_def Let_def)
qed

lemma provider_ids:
  "generateProviderId ''http://localhost:8545'' = ''provider-1860031575''"
  "generateProviderId ''http://localhost:8546'' = ''provider-1860031576''"
  "generateProviderId ''http://localhost:8547'' = ''provider-1860031577''"
  by (simp_all add: generateProviderId_def hash_step_def show_int_def show_nat.simps digit_char_def)

lemma mock_pool_new: "new_ProviderPool mockProviders None None = Inr mock_pool"
  by (simp add: mock_pool_def new_ProviderPool_def mockProviders_def Let_def)

lemma mock_pool_eval:
  "heap mock_pool = map new_entry mockProviders"
  "providerList mock_pool = [1, 0, 2]"
  "failureThreshold mock_pool = 3"
  "providers mock_pool ''provider-1860031576'' = Some 1"
  "roundRobinIndex mock_pool = 0"
  by (simp_all add: mock_pool_def new_ProviderPool_def mockProviders_def Let_def new_entry_def
      register_all_def provider_ids upt_rec)

lemma mock_pool_failed:
  "heap (pool_run mock_pool three_failures) =
     (map new_entry mockProviders)[1 := (new_entry (mockProviders ! 1))
        \<lparr>healthy := False, consecutiveFailures := 3, lastFailure := Some 3000,
         lastError := Some ''Connection failed''\<rparr>]"
  "providerList (pool_run mock_pool three_failures) = [1, 0, 2]"
  "roundRobinIndex (pool_run mock_pool three_failures) = 0"
  by (simp_all add: pool_run_def three_failures_def reportFailure_def mock_pool_eval Let_def
      mockProviders_def new_entry_def)

lemma register_all_aux_complete:
  assumes "inj_on f (set xs)" and "a \<in> set xs"
  shows "foldl (\<lambda>m i. m(f i \<mapsto> i)) m0 xs (f a) = Some a"
  using assms
proof (induction xs rule: rev_induct)
  case Nil
  then show ?case by simp
next
  case (snoc x xs)
  show ?case
  proof (cases "f x = f a")
    case True
    then have "x = a" using snoc.prems by (auto dest: inj_onD)
    then show ?thesis by simp
  next
    case False
    then have "a \<in> set xs" using snoc.prems(2) by auto
    moreover have "inj_on f (set xs)" using snoc.prems(1) by (auto simp add: inj_on_def)
    ultimately have ih: "foldl (\<lambda>m i. m(f i \<mapsto> i)) m0 xs (f a) = Some a"
      by (rule snoc.IH[rotated])
    have "foldl (\<lambda>m i. m(f i \<mapsto> i)) m0 (xs @ [x]) (f a) =
          ((foldl (\<lambda>m i. m(f i \<mapsto> i)) m0 xs)(f x \<mapsto> x)) (f a)"
      by (simp only: foldl_append foldl.simps)
    also have "\<dots> = foldl (\<lambda>m i. m(f i \<mapsto> i)) m0 xs (f a)"
      using False by (simp only: fun_upd_apply) simp
    finally show ?thesis using ih by (simp only:)
  qed
qed

lemma register_all_complete:
  assumes "distinct (map entry_id h)" and "a < length h"
  shows "register_all h (entry_id (h ! a)) = Some a"
proof -
  have "inj_on (\<lambda>i. entry_id (h ! i)) (set [0..<length h])"
  proof (rule inj_onI)
    fix i j
    assume "i \<in> set [0..<length h]" "j \<in> set [0..<length h]"
      and "entry_id (h ! i) = entry_id (h ! j)"
    then have "i < length (map entry_id h)" "j < length (map entry_id h)"
      "map entry_id h ! i = map entry_id h ! j" by simp_all
    then show "i = j" using assms(1) nth_eq_iff_index_eq by blast
  qed
  moreover have "a \<in> set [0..<length h]" using assms(2) by simp
  ultimately show ?thesis
    unfolding register_all_def
    by (rule register_all_aux_complete[where f = "\<lambda>i. entry_id (h ! i)"])
qed

lemma new_pool_reaches:
  assumes "new_ProviderPool cfgs ft cd = Inr p0"
    and "distinct (map (\<lambda>c. generateProviderId (cfg_url c)) cfgs)"
    and "a < length cfgs"
  shows "length (heap p0) = length cfgs \<and>
         providers p0 (generateProviderId (cfg_url (cfgs ! a))) = Some a"
proof -
  have p: "heap p0 = map new_entry cfgs" "providers p0 = register_all (map new_entry cfgs)"
    using assms(1) by (auto simp add: new_ProviderPool_def Let_def split: if_splits)
  have m: "map entry_id (map new_entry cfgs) = map (\<lambda>c. generateProviderId (cfg_url c)) cfgs"
    by (simp add: new_entry_def)
  have d: "distinct (map entry_id (map new_entry cfgs))" by (simp only: m assms(2))
  have "register_all (map new_entry cfgs) (entry_id (map new_entry cfgs ! a)) = Some a"
    by (rule register_all_complete[OF d]) (use assms(3) in simp)
  then show ?thesis using p assms(3) by (simp add: new_entry_def)
qed

text \<open>
  Claim C5, amended: with a failure threshold of at least 1 and endpoints whose ids are
  pairwise distinct. Take a pool as its constructor builds it and any history of
  \<open>reportSuccess\<close>, \<open>reportFailure\<close> and \<open>getProvider\<close> calls. Every configured
  endpoint is an entry of \<open>providerList\<close>, filed in the map under its own id; its
  \<open>consecutiveFailures\<close> is the number of failures reported for its id since the last
  success reported for it, and it is unhealthy iff that number has reached
  \<open>failureThreshold\<close>. A success report for its id then succeeds, resets
  \<open>consecutiveFailures\<close> to 0 and sets \<open>healthy\<close>.
\<close>

theorem health_threshold:
  assumes "new_ProviderPool cfgs ft cd = Inr p0"
    and "1 \<le> failureThreshold p0"
    and "distinct (map (\<lambda>c. generateProviderId (cfg_url c)) cfgs)"
    and "a < length cfgs"
  shows "length (heap (pool_run p0 calls)) = length cfgs \<and>
         a \<in> set (providerList (pool_run p0 calls)) \<and>
         entry_id (heap (pool_run p0 calls) ! a) = generateProviderId (cfg_url (cfgs ! a)) \<and>
         providers (pool_run p0 calls) (generateProviderId (cfg_url (cfgs ! a))) = Some a \<and>
         consecutiveFailures (heap (pool_run p0 calls) ! a)
           = trailing_failures (generateProviderId (cfg_url (cfgs ! a))) calls \<and>
         (\<not> healthy (heap (pool_run p0 calls) ! a) \<longleftrightarrow>
            failureThreshold p0
              \<le> int (trailing_failures (generateProviderId (cfg_url (cfgs ! a))) calls)) \<and>
         fst (reportSuccess now (generateProviderId (cfg_url (cfgs ! a))) (pool_run p0 calls))
           = Inr () \<and>
         consecutiveFailures
           (heap (snd (reportSuccess now (generateProviderId (cfg_url (cfgs ! a)))
                         (pool_run p0 calls))) ! a) = 0 \<and>
         healthy
           (heap (snd (reportSuccess now (generateProviderId (cfg_url (cfgs ! a)))
                         (pool_run p0 calls))) ! a)"
proof -
  let ?p = "pool_run p0 calls"
  let ?k = "generateProviderId (cfg_url (cfgs ! a))"
  note rc = new_pool_reaches[OF assms(1,3,4)]
  have ka: "providers p0 ?k = Some a" using rc by simp
  have wf: "pool_wf ?p" using new_pool_wf[OF assms(1)] by (rule pool_run_wf)
  have fr: "providers ?p = providers p0" "length (heap ?p) = length (heap p0)"
    using pool_run_frame[of p0 calls] by simp_all
  have pr: "providers ?p ?k = Some a" using fr ka by simp
  have len: "length (heap ?p) = length cfgs" using fr rc by simp
  have al: "a < length (heap ?p)" and ida: "entry_id (heap ?p ! a) = ?k"
    using wf pr by (auto simp add: pool_wf_def)
  have mem: "a \<in> set (providerList ?p)" using wf al by (simp add: pool_wf_def)
  note inv = health_invariant[OF assms(1,2) ka, of calls]
  note rs = reportSuccess_resets[OF wf pr, of now]
  show ?thesis using len mem ida pr inv rs by auto
qed

text \<open>
  The theorem of C5 on the pool of the unit tests (threshold 3, three distinct ids):
  three failures reported for the priority-2 endpoint make it unhealthy, and one success
  restores it.
\<close>

theorem health_threshold_witness:
  "new_ProviderPool mockProviders None None = Inr mock_pool \<and>
   1 \<le> failureThreshold mock_pool \<and>
   distinct (map (\<lambda>c. generateProviderId (cfg_url c)) mockProviders) \<and>
   1 < length mockProviders \<and>
   generateProviderId (cfg_url (mockProviders ! 1)) = ''provider-1860031576'' \<and>
   consecutiveFailures (heap (pool_run mock_pool three_failures) ! 1) = 3 \<and>
   \<not> healthy (heap (pool_run mock_pool three_failures) ! 1) \<and>
   healthy (heap (snd (reportSuccess 4000 ''provider-1860031576''
                        (pool_run mock_pool three_failures))) ! 1)"
proof -
  have h1: "new_ProviderPool mockProviders None None = Inr mock_pool" by (rule mock_pool_new)
  have h2: "1 \<le> failureThreshold mock_pool" by (simp add: mock_pool_eval)
  have h3: "distinct (map (\<lambda>c. generateProviderId (cfg_url c)) mockProviders)"
    by (simp add: mockProviders_def provider_ids)
  have h4: "1 < length mockProviders" by (simp add: mockProviders_def)
  have k: "generateProviderId (cfg_url (mockProviders ! 1)) = ''provider-1860031576''"
    by (simp add: mockProviders_def provider_ids)
  have t: "trailing_failures ''provider-1860031576'' three_failures = 3"
    by (simp add: trailing_failures_def three_failures_def)
  from health_threshold[OF h1 h2 h3 h4, of three_failures 4000] t h1 h2 h3 h4 k
  show ?thesis by (simp add: mock_pool_eval)
qed

text \<open>
  Claim C5 as stated fails in two ways. For a threshold of 0: after a failure and then a
  success the endpoint is healthy, although its count of consecutive failures, 0, is at
  least the threshold. For the same URL configured twice: both entries carry one id, the
  map files only the second under it, so three failures reported for the id leave the
  first entry, which checkout still hands out, healthy.
\<close>

theorem health_threshold_counterexample:
  "\<not> (\<not> healthy (heap (pool_run zero_threshold_pool failure_then_success) ! 0) \<longleftrightarrow>
        failureThreshold zero_threshold_pool
          \<le> int (trailing_failures ''provider-1860031575'' failure_then_success)) \<and>
   entry_id (heap duplicate_url_pool ! 0) = ''provider-1860031575'' \<and>
   0 \<in> set (providerList duplicate_url_pool) \<and>
   \<not> (\<not> healthy (heap (pool_run duplicate_url_pool shared_id_failures) ! 0) \<longleftrightarrow>
        failureThreshold duplicate_url_pool
          \<le> int (trailing_failures ''provider-1860031575'' shared_id_failures))"
proof -
  have ev: "heap zero_threshold_pool =
              [new_entry \<lparr>cfg_url = ''http://localhost:8545'', cfg_priority = 1\<rparr>]"
    "failureThreshold zero_threshold_pool = 0"
    "providers zero_threshold_pool ''provider-1860031575'' = Some 0"
    by (simp_all add: zero_threshold_pool_def new_ProviderPool_def Let_def register_all_def
        new_entry_def provider_ids)
  have "healthy (heap (pool_run zero_threshold_pool failure_then_success) ! 0)"
    by (simp add: pool_run_def failure_then_success_def reportFailure_def reportSuccess_def
        Let_def ev)
  moreover have "trailing_failures ''provider-1860031575'' failure_then_success = 0"
    by (simp add: trailing_failures_def failure_then_success_def)
  ultimately have first:
    "\<not> (\<not> healthy (heap (pool_run zero_threshold_pool failure_then_success) ! 0) \<longleftrightarrow>
        failureThreshold zero_threshold_pool
          \<le> int (trailing_failures ''provider-1860031575'' failure_then_success))"
    by (simp add: ev)
  have dv: "heap duplicate_url_pool =
              [new_entry \<lparr>cfg_url = ''http://localhost:8545'', cfg_priority = 1\<rparr>,
               new_entry \<lparr>cfg_url = ''http://localhost:8545'', cfg_priority = 1\<rparr>]"
    "failureThreshold duplicate_url_pool = 3"
    "providers duplicate_url_pool ''provider-1860031575'' = Some 1"
    "providerList duplicate_url_pool = [0, 1]"
    by (simp_all add: duplicate_url_pool_def new_ProviderPool_def Let_def register_all_def
        new_entry_def provider_ids upt_rec)
  have "healthy (heap (pool_run duplicate_url_pool shared_id_failures) ! 0)"
    by (simp add: pool_run_def shared_id_failures_def reportFailure_def Let_def dv new_entry_def)
  moreover have "trailing_failures ''provider-1860031575'' shared_id_failures = 3"
    by (simp add: trailing_failures_def shared_id_failures_def)
  ultimately have second:
    "\<not> (\<not> healthy (heap (pool_run duplicate_url_pool shared_id_failures) ! 0) \<longleftrightarrow>
        failureThreshold duplicate_url_pool
          \<le> int (trailing_failures ''provider-1860031575'' shared_id_failures))"
    by (simp add: dv)
  have "entry_id (heap duplicate_url_pool ! 0) = ''provider-1860031575''"
    "0 \<in> set (providerList duplicate_url_pool)"
    by (simp_all add: dv new_entry_def provider_ids)
  then show ?thesis using first second by blast
qed

text \<open>
  Claim C7, amended: the weight is taken against \<open>max(0, min_priority)\<close>. Take a pool
  as its constructor builds it, after any history of calls, with at least one healthy
  endpoint. The weighted list holds the healthy endpoints in the order of
  \<open>providerList\<close>, each one \<open>max(1, priority - max(0, min_priority) + 1)\<close> times, where
  \<open>min_priority\<close> is the lowest priority among the healthy endpoints; an unhealthy
  endpoint is not in it. \<open>getProvider\<close> returns the endpoint at position
  \<open>roundRobinIndex mod length\<close> of that list and advances \<open>roundRobinIndex\<close> by one.
\<close>

theorem getProvider_weighted:
  assumes "new_ProviderPool cfgs ft cd = Inr p0"
    and "p = pool_run p0 calls"
    and "healthy_entries p \<noteq> []"
  shows "let w = (\<lambda>a. nat (max 1 (priority (heap p ! a) - max 0 (min_healthy_priority p) + 1)));
             wl = concat (map (\<lambda>a. replicate (w a) a) (healthy_entries p))
         in wl \<noteq> [] \<and>
            (\<forall>a < length (heap p). count_list wl a = (if healthy (heap p ! a) then w a else 0)) \<and>
            getProvider now p =
              (Inr (info_of (heap p ! (wl ! (roundRobinIndex p mod length wl)))),
               p\<lparr>roundRobinIndex := roundRobinIndex p + 1\<rparr>)"
proof -
  have wf: "pool_wf p" using new_pool_wf[OF assms(1)] assms(2) by (simp add: pool_run_wf)
  let ?w = "\<lambda>a. nat (max 1 (priority (heap p ! a) - max 0 (min_healthy_priority p) + 1))"
  have wl: "weightedList p (healthy_entries p) =
          concat (map (\<lambda>a. replicate (?w a) a) (healthy_entries p))"
    by (simp add: weightedList_def Let_def base_priority[OF wf assms(3)])
  have ne: "weightedList p (healthy_entries p) \<noteq> []"
    using weightedList_nonempty[OF assms(3)] .
  have cnt: "\<forall>a < length (heap p). count_list (weightedList p (healthy_entries p)) a =
              (if healthy (heap p ! a) then ?w a else 0)"
    using weightedList_count[OF wf assms(3)] by blast
  note gp = getProvider_healthy[OF assms(3), of now]
  show ?thesis unfolding Let_def using ne cnt gp by (simp only: wl) simp
qed

lemma failed_pool_healthy:
  "healthy_entries (pool_run mock_pool three_failures) = [0, 2]"
  "min_healthy_priority (pool_run mock_pool three_failures) = 0"
  by (simp_all add: healthy_entries_def min_healthy_priority_def mock_pool_failed
      mockProviders_def new_entry_def)

text \<open>
  The theorem of C7 on the pool of the unit tests after the priority-2 endpoint has been
  demoted: the healthy endpoints have priorities 1 and 0, the weighted list starts with
  the priority-1 endpoint, and checkout returns it.
\<close>

theorem getProvider_weighted_witness:
  "new_ProviderPool mockProviders None None = Inr mock_pool \<and>
   healthy_entries (pool_run mock_pool three_failures) \<noteq> [] \<and>
   fst (getProvider 5000 (pool_run mock_pool three_failures)) =
     Inr \<lparr>info_id = ''provider-1860031575'', info_url = ''http://localhost:8545'',
          info_priority = 1\<rparr>"
proof -
  have h1: "new_ProviderPool mockProviders None None = Inr mock_pool" by (rule mock_pool_new)
  have h3: "healthy_entries (pool_run mock_pool three_failures) \<noteq> []"
    by (simp add: failed_pool_healthy)
  from getProvider_weighted[OF h1 refl h3, of 5000]
  have "fst (getProvider 5000 (pool_run mock_pool three_failures)) =
          Inr (info_of (heap (pool_run mock_pool three_failures) ! 0))"
    by (simp add: Let_def failed_pool_healthy mock_pool_failed mockProviders_def new_entry_def
        numeral_eq_Suc)
  then show ?thesis using h1 h3
    by (simp add: mock_pool_failed mockProviders_def new_entry_def info_of_def provider_ids)
qed

text \<open>
  Claim C7 as stated fails when the lowest healthy priority is negative: with priorities
  1 and -1 the first endpoint is in the weighted list twice, not
  \<open>max(1, 1 - (-1) + 1) = 3\<close> times.
\<close>

theorem getProvider_weighted_counterexample:
  "count_list (weightedList negative_priority_pool (healthy_entries negative_priority_pool)) 0
     \<noteq> nat (max 1 (priority (heap negative_priority_pool ! 0)
                      - min_healthy_priority negative_priority_pool + 1))"
proof -
  have ev: "heap negative_priority_pool =
              [new_entry \<lparr>cfg_url = ''http://localhost:8545'', cfg_priority = 1\<rparr>,
               new_entry \<lparr>cfg_url = ''http://localhost:8546'', cfg_priority = - 1\<rparr>]"
    "providerList negative_priority_pool = [0, 1]"
    by (simp_all add: negative_priority_pool_def new_ProviderPool_def Let_def new_entry_def
        upt_rec)
  have he: "healthy_entries negative_priority_pool = [0, 1]"
    by (simp add: healthy_entries_def ev new_entry_def)
  have "weightedList negative_priority_pool [0, 1] = [0, 0, 1]"
    by (simp add: weightedList_def Let_def ev new_entry_def numeral_eq_Suc)
  moreover have "min_healthy_priority negative_priority_pool = - 1"
    by (simp add: min_healthy_priority_def he ev new_entry_def)
  ultimately show ?thesis by (simp add: he ev new_entry_def)
qed

section \<open>Properties of the classifier and the decoder\<close>





lemma decode_cases:
  "decode iface log = Inr None \<or>
   (\<exists>name args data. parseLog iface (raw_topics log) (raw_data log) = Parsed name args \<and>
      serializeEventData args = Inr data \<and>
      decode iface log =
        Inr (Some \<lparr>contractAddress = raw_address log, blockNumber = raw_blockNumber log,
                   blockTimestamp = 0, transactionHash = raw_transactionHash log,
                   logIndex = raw_index log, eventName = name, eventData = data\<rparr>))"
  by (auto simp add: decode_def decode_try_def split: parse_outcome.splits sum.splits)

lemma enrich_logs_skip:
  "enrich_logs iface cache logs =
     Inr (concat (map (\<lambda>l.
            case decode iface l of
              Inr (Some ev) \<Rightarrow>
                (case cache (raw_blockNumber l) of
                   Some ts \<Rightarrow> [ev\<lparr>blockTimestamp := ts\<rparr>]
                 | None \<Rightarrow> [])
            | _ \<Rightarrow> []) logs))"
proof (induction logs)
  case Nil
  then show ?case by simp
next
  case (Cons l logs)
  from decode_cases[of iface l] show ?case
  proof
    assume "decode iface l = Inr None"
    then show ?thesis using Cons by simp
  next
    assume "\<exists>name args data. parseLog iface (raw_topics l) (raw_data l) = Parsed name args \<and>
      serializeEventData args = Inr data \<and>
      decode iface l =
        Inr (Some \<lparr>contractAddress = raw_address l, blockNumber = raw_blockNumber l,
                   blockTimestamp = 0, transactionHash = raw_transactionHash l,
                   logIndex = raw_index l, eventName = name, eventData = data\<rparr>)"
    then obtain ev where "decode iface l = Inr (Some ev)" by blast
    then show ?thesis using Cons by (cases "cache (raw_blockNumber l)") simp_all
  qed
qed

text \<open>
  Claim C10. \<open>decode\<close> never throws: whatever \<open>parseLog\<close> does with the log, the
  result is \<open>null\<close> or an event whose \<open>blockTimestamp\<close> is 0 and whose address, block
  number, transaction hash and log index are the log's. A topic 0 that the ABI does not
  know (\<open>parseLog\<close> returns \<open>null\<close>) and malformed data (\<open>parseLog\<close> throws) both give
  \<open>null\<close>. The loop of the fetcher never throws either, and its output is made of the
  decodable logs with a known timestamp, so a log that decodes to \<open>null\<close> contributes
  nothing.
\<close>

theorem decode_total:
  "(\<exists>r. decode iface log = Inr r \<and>
         (\<forall>ev. r = Some ev \<longrightarrow>
            blockTimestamp ev = 0 \<and> contractAddress ev = raw_address log \<and>
            blockNumber ev = raw_blockNumber log \<and>
            transactionHash ev = raw_transactionHash log \<and> logIndex ev = raw_index log)) \<and>
   (parseLog iface (raw_topics log) (raw_data log) = ParseNull \<longrightarrow> decode iface log = Inr None) \<and>
   ((\<exists>e. parseLog iface (raw_topics log) (raw_data log) = ParseThrows e) \<longrightarrow>
      decode iface log = Inr None) \<and>
   enrich_logs iface cache logs =
     Inr (concat (map (\<lambda>l.
            case decode iface l of
              Inr (Some ev) \<Rightarrow>
                (case cache (raw_blockNumber l) of
                   Some ts \<Rightarrow> [ev\<lparr>blockTimestamp := ts\<rparr>]
                 | None \<Rightarrow> [])
            | _ \<Rightarrow> []) logs))"
proof (intro conjI)
  show "\<exists>r. decode iface log = Inr r \<and>
         (\<forall>ev. r = Some ev \<longrightarrow>
            blockTimestamp ev = 0 \<and> contractAddress ev = raw_address log \<and>
            blockNumber ev = raw_blockNumber log \<and>
            transactionHash ev = raw_transactionHash log \<and> logIndex ev = raw_index log)"
    using decode_cases[of iface log] by auto
  show "parseLog iface (raw_topics log) (raw_data log) = ParseNull \<longrightarrow> decode iface log = Inr None"
    by (simp add: decode_def decode_try_def)
  show "(\<exists>e. parseLog iface (raw_topics log) (raw_data log) = ParseThrows e) \<longrightarrow>
      decode iface log = Inr None"
    by (auto simp add: decode_def decode_try_def)
  show "enrich_logs iface cache logs =
     Inr (concat (map (\<lambda>l.
            case decode iface l of
              Inr (Some ev) \<Rightarrow>
                (case cache (raw_blockNumber l) of
                   Some ts \<Rightarrow> [ev\<lparr>blockTimestamp := ts\<rparr>]
                 | None \<Rightarrow> [])
            | _ \<Rightarrow> []) logs))"
    by (rule enrich_logs_skip)
qed

text \<open>
  The theorem of C10 at a log with an unknown topic and at a log of a known event with
  malformed data: both decode to \<open>null\<close>, and the fetcher's loop skips both.
\<close>

theorem decode_total_witness:
  "parseLog test_interface (raw_topics unknown_log) (raw_data unknown_log) = ParseNull \<and>
   decode test_interface unknown_log = Inr None \<and>
   (\<exists>e. parseLog test_interface (raw_topics malformed_log) (raw_data malformed_log) = ParseThrows e) \<and>
   decode test_interface malformed_log = Inr None \<and>
   enrich_logs test_interface Map.empty [unknown_log, malformed_log] = Inr []"
proof -
  have u: "parseLog test_interface (raw_topics unknown_log) (raw_data unknown_log) = ParseNull"
    by (simp add: test_interface_def unknown_log_def transferTopic_def)
  have m: "\<exists>e. parseLog test_interface (raw_topics malformed_log) (raw_data malformed_log) = ParseThrows e"
    by (simp add: test_interface_def malformed_log_def)
  note t1 = decode_total[of test_interface unknown_log Map.empty "[unknown_log, malformed_log]"]
  note t2 = decode_total[of test_interface malformed_log Map.empty "[]"]
  have du: "decode test_interface unknown_log = Inr None"
    using t1[THEN conjunct2, THEN conjunct1] u by blast
  have dm: "decode test_interface malformed_log = Inr None"
    using t2[THEN conjunct2, THEN conjunct2, THEN conjunct1] m by blast
  have "enrich_logs test_interface Map.empty [unknown_log, malformed_log] = Inr []"
    using t1[THEN conjunct2, THEN conjunct2, THEN conjunct2] du dm by simp
  then show ?thesis using u m du dm by blast
qed

section \<open>Properties of the fetcher and the indexer\<close>

lemma fetch_loop_fuel:
  "fetch_loop n P pid ca ts tb s = Some r \<Longrightarrow> fetch_loop (n + k) P pid ca ts tb s = Some r"
proof (induction n arbitrary: s)
  case 0
  then show ?case by (cases k) (auto split: if_splits)
next
  case (Suc n)
  show ?case
  proof (cases "currentBlock s \<le> tb")
    case False
    then show ?thesis using Suc.prems by simp
  next
    case True
    obtain e s' where fc: "fetch_chunk P pid ca ts tb s = (e, s')"
      by (cases "fetch_chunk P pid ca ts tb s")
    show ?thesis
    proof (cases e)
      case (Some err)
      then have "r = (Some err, s')" using Suc.prems True fc by simp
      then show ?thesis using True fc Some by simp
    next
      case None
      then have "fetch_loop n P pid ca ts tb s' = Some r" using Suc.prems True fc by simp
      then have "fetch_loop (n + k) P pid ca ts tb s' = Some r" by (rule Suc.IH)
      then show ?thesis using True fc None by simp
    qed
  qed
qed

lemma fetch_chunk_range_error:
  assumes "getLogs P (length (requests s))
             \<lparr>flt_address = ca, flt_topics = [ts], flt_fromBlock = currentBlock s,
              flt_toBlock = min (currentBlock s + chunkSize s - 1) tb\<rparr> = Inl err"
    and "isBlockRangeError err"
  shows "\<exists>s'. fetch_chunk P pid ca ts tb s = (None, s') \<and>
           chunkSize s' = max (chunkSize s div 2) 100 \<and>
           currentBlock s' = currentBlock s \<and>
           limits s' pid = Some (chunkSize s') \<and> allLogs s' = allLogs s"
  using assms by (simp add: fetch_chunk_def Let_def)

lemma fetch_chunk_bounds:
  assumes "fetch_chunk P pid ca ts tb s = (e, s')" and "100 \<le> chunkSize s"
    and "chunk_inv pid init s"
  shows "100 \<le> chunkSize s' \<and> chunkSize s' \<le> chunkSize s \<and> chunk_inv pid init s'"
  using assms
  by (auto simp add: fetch_chunk_def Let_def chunk_inv_def split: sum.splits if_splits)

lemma fetch_loop_bounds:
  assumes "fetch_loop n P pid ca ts tb s = Some (e, s')" and "100 \<le> chunkSize s"
    and "chunk_inv pid init s"
  shows "100 \<le> chunkSize s' \<and> chunkSize s' \<le> chunkSize s \<and> chunk_inv pid init s'"
  using assms
proof (induction n arbitrary: s)
  case 0
  then show ?case by (auto split: if_splits)
next
  case (Suc n)
  show ?case
  proof (cases "currentBlock s \<le> tb")
    case False
    then show ?thesis using Suc.prems by auto
  next
    case True
    obtain e1 s1 where fc: "fetch_chunk P pid ca ts tb s = (e1, s1)"
      by (cases "fetch_chunk P pid ca ts tb s")
    note b1 = fetch_chunk_bounds[OF fc Suc.prems(2,3)]
    show ?thesis
    proof (cases e1)
      case (Some err)
      then have "s' = s1" using Suc.prems(1) True fc by simp
      then show ?thesis using b1 by simp
    next
      case None
      then have "fetch_loop n P pid ca ts tb s1 = Some (e, s')"
        using Suc.prems(1) True fc by simp
      from Suc.IH[OF this] b1 show ?thesis by auto
    qed
  qed
qed

lemma enrich_frame:
  "enrichWithTimestamps logs f = (r, f', reqs) \<Longrightarrow>
     blockRangeLimits f' = blockRangeLimits f \<and> providerId f' = providerId f \<and>
     initialChunkSize f' = initialChunkSize f \<and> provider f' = provider f \<and>
     decoder f' = decoder f"
  by (auto simp add: enrichWithTimestamps_def Let_def split: if_splits prod.splits option.splits)

lemma fetchEvents_chunk:
  assumes "fetchEvents fuel ca names fb tb f = Some (r, f', tr)"
    and "100 \<le> current_chunkSize f"
  shows "100 \<le> current_chunkSize f' \<and> current_chunkSize f' \<le> current_chunkSize f \<and>
         providerId f' = providerId f \<and> initialChunkSize f' = initialChunkSize f"
proof (cases "topic_hashes (decoder f) names")
  case (Inl e)
  then show ?thesis using assms by (simp add: fetchEvents_def Let_def)
next
  case (Inr topics)
  let ?s0 = "\<lparr>chunkSize = current_chunkSize f, currentBlock = fb, allLogs = [],
              limits = blockRangeLimits f, requests = []\<rparr>"
  from assms(1) Inr obtain e s where
    lp: "fetch_loop fuel (provider f) (providerId f) ca topics tb ?s0 = Some (e, s)"
    by (auto simp add: fetchEvents_def Let_def split: option.splits)
  have i0: "chunk_inv (providerId f) (initialChunkSize f) ?s0"
    by (simp add: chunk_inv_def current_chunkSize_def)
  have c0: "100 \<le> chunkSize ?s0" using assms(2) by simp
  from fetch_loop_bounds[OF lp c0 i0]
  have b: "100 \<le> chunkSize s" "chunkSize s \<le> current_chunkSize f"
    "chunk_inv (providerId f) (initialChunkSize f) s" by simp_all
  have fr: "blockRangeLimits f' = limits s \<and> providerId f' = providerId f \<and>
            initialChunkSize f' = initialChunkSize f"
  proof (cases e)
    case (Some err)
    then have "f' = f\<lparr>blockRangeLimits := limits s\<rparr>"
      using assms(1) Inr lp by (simp add: fetchEvents_def Let_def)
    then show ?thesis by simp
  next
    case None
    obtain r1 f1 q1 where en:
      "enrichWithTimestamps (allLogs s) (f\<lparr>blockRangeLimits := limits s\<rparr>) = (r1, f1, q1)"
      by (cases "enrichWithTimestamps (allLogs s) (f\<lparr>blockRangeLimits := limits s\<rparr>)") auto
    then have "f' = f1" using assms(1) Inr lp None by (simp add: fetchEvents_def Let_def)
    then show ?thesis using enrich_frame[OF en] by simp
  qed
  then have "current_chunkSize f' = chunkSize s"
    using b(3) by (simp add: current_chunkSize_def chunk_inv_def split: option.splits)
  then show ?thesis using b fr by simp
qed

lemma fetch_all_chunk:
  "fetch_all fuel qs f = Some f' \<Longrightarrow> 100 \<le> current_chunkSize f \<Longrightarrow>
     100 \<le> current_chunkSize f' \<and> current_chunkSize f' \<le> current_chunkSize f"
proof (induction qs arbitrary: f)
  case Nil
  then show ?case by simp
next
  case (Cons q qs)
  obtain ca names fb tb where q: "q = (ca, names, fb, tb)" by (cases q) auto
  from Cons.prems(1) q obtain r f1 tr where
    fe: "fetchEvents fuel ca names fb tb f = Some (r, f1, tr)"
    and rest: "fetch_all fuel qs f1 = Some f'"
    by (auto split: option.splits)
  from fetchEvents_chunk[OF fe Cons.prems(2)] Cons.IH[OF rest] show ?case by auto
qed

lemma too_large_is_range_error: "isBlockRangeError (Error ''block range too large'')"
  by (simp add: isBlockRangeError_def toLowerCase_def toLowerChar_def)

lemma fetch_chunk_ok:
  assumes "getLogs P (length (requests s))
             \<lparr>flt_address = ca, flt_topics = [ts], flt_fromBlock = currentBlock s,
              flt_toBlock = min (currentBlock s + chunkSize s - 1) tb\<rparr> = Inr logs"
  shows "fetch_chunk P pid ca ts tb s =
           (None, s\<lparr>requests := requests s @
                       [\<lparr>flt_address = ca, flt_topics = [ts], flt_fromBlock = currentBlock s,
                         flt_toBlock = min (currentBlock s + chunkSize s - 1) tb\<rparr>],
                     allLogs := allLogs s @ logs,
                     currentBlock := min (currentBlock s + chunkSize s - 1) tb + 1\<rparr>)"
  using assms by (simp add: fetch_chunk_def Let_def)

lemma fetch_chunk_shrink:
  assumes "getLogs P (length (requests s))
             \<lparr>flt_address = ca, flt_topics = [ts], flt_fromBlock = currentBlock s,
              flt_toBlock = min (currentBlock s + chunkSize s - 1) tb\<rparr> = Inl err"
    and "isBlockRangeError err"
  shows "fetch_chunk P pid ca ts tb s =
           (None, s\<lparr>requests := requests s @
                       [\<lparr>flt_address = ca, flt_topics = [ts], flt_fromBlock = currentBlock s,
                         flt_toBlock = min (currentBlock s + chunkSize s - 1) tb\<rparr>],
                     chunkSize := max (chunkSize s div 2) 100,
                     limits := (limits s)(pid \<mapsto> max (chunkSize s div 2) 100)\<rparr>)"
  using assms by (simp add: fetch_chunk_def Let_def)

lemma shrink_scenario_loop:
  assumes first: "\<forall>flt. getLogs P 0 flt = Inl (Error ''block range too large'')"
    and later: "\<forall>k flt. 0 < k \<longrightarrow> (\<exists>logs. getLogs P k flt = Inr logs)"
  shows "\<exists>s. fetch_loop 4 P pid ca ts 17002000
               \<lparr>chunkSize = 2000, currentBlock = 17000000, allLogs = [], limits = lim,
                requests = []\<rparr> = Some (None, s) \<and>
             requests s =
               [\<lparr>flt_address = ca, flt_topics = [ts], flt_fromBlock = 17000000, flt_toBlock = 17001999\<rparr>,
                \<lparr>flt_address = ca, flt_topics = [ts], flt_fromBlock = 17000000, flt_toBlock = 17000999\<rparr>,
                \<lparr>flt_address = ca, flt_topics = [ts], flt_fromBlock = 17001000, flt_toBlock = 17001999\<rparr>,
                \<lparr>flt_address = ca, flt_topics = [ts], flt_fromBlock = 17002000, flt_toBlock = 17002000\<rparr>] \<and>
             limits s = lim(pid \<mapsto> 1000) \<and> chunkSize s = 1000"
proof -
  let ?q0 = "\<lparr>flt_address = ca, flt_topics = [ts], flt_fromBlock = 17000000, flt_toBlock = 17001999\<rparr>"
  let ?q1 = "\<lparr>flt_address = ca, flt_topics = [ts], flt_fromBlock = 17000000, flt_toBlock = 17000999\<rparr>"
  let ?q2 = "\<lparr>flt_address = ca, flt_topics = [ts], flt_fromBlock = 17001000, flt_toBlock = 17001999\<rparr>"
  let ?q3 = "\<lparr>flt_address = ca, flt_topics = [ts], flt_fromBlock = 17002000, flt_toBlock = 17002000\<rparr>"
  let ?s0 = "\<lparr>chunkSize = 2000, currentBlock = 17000000, allLogs = [], limits = lim, requests = []\<rparr>"
  let ?s1 = "\<lparr>chunkSize = 1000, currentBlock = 17000000, allLogs = [],
              limits = lim(pid \<mapsto> 1000), requests = [?q0]\<rparr>"
  obtain l1 where l1: "getLogs P 1 ?q1 = Inr l1" using later by (metis zero_less_one)
  obtain l2 where l2: "getLogs P (Suc (Suc 0)) ?q2 = Inr l2" using later by (metis zero_less_Suc)
  obtain l3 where l3: "getLogs P (Suc (Suc (Suc 0))) ?q3 = Inr l3"
    using later by (metis zero_less_Suc)
  let ?s2 = "\<lparr>chunkSize = 1000, currentBlock = 17001000, allLogs = l1,
              limits = lim(pid \<mapsto> 1000), requests = [?q0, ?q1]\<rparr>"
  let ?s3 = "\<lparr>chunkSize = 1000, currentBlock = 17002000, allLogs = l1 @ l2,
              limits = lim(pid \<mapsto> 1000), requests = [?q0, ?q1, ?q2]\<rparr>"
  let ?s4 = "\<lparr>chunkSize = 1000, currentBlock = 17002001, allLogs = l1 @ l2 @ l3,
              limits = lim(pid \<mapsto> 1000), requests = [?q0, ?q1, ?q2, ?q3]\<rparr>"
  have c0: "fetch_chunk P pid ca ts 17002000 ?s0 = (None, ?s1)"
    using fetch_chunk_shrink[of P ?s0 ca ts 17002000 "Error ''block range too large''" pid]
      first too_large_is_range_error by simp
  have c1: "fetch_chunk P pid ca ts 17002000 ?s1 = (None, ?s2)"
    using fetch_chunk_ok[of P ?s1 ca ts 17002000 l1 pid] l1 by simp
  have c2: "fetch_chunk P pid ca ts 17002000 ?s2 = (None, ?s3)"
    using fetch_chunk_ok[of P ?s2 ca ts 17002000 l2 pid] l2 by simp
  have c3: "fetch_chunk P pid ca ts 17002000 ?s3 = (None, ?s4)"
    using fetch_chunk_ok[of P ?s3 ca ts 17002000 l3 pid] l3 by simp
  have e0: "fetch_loop 0 P pid ca ts 17002000 ?s4 = Some (None, ?s4)" by simp
  have e1: "fetch_loop (Suc 0) P pid ca ts 17002000 ?s3 = Some (None, ?s4)"
    using c3 e0 by simp
  have e2: "fetch_loop (Suc (Suc 0)) P pid ca ts 17002000 ?s2 = Some (None, ?s4)"
    using c2 e1 by simp
  have e3: "fetch_loop (Suc (Suc (Suc 0))) P pid ca ts 17002000 ?s1 = Some (None, ?s4)"
    using c1 e2 by simp
  have e4: "fetch_loop (Suc (Suc (Suc (Suc 0)))) P pid ca ts 17002000 ?s0 = Some (None, ?s4)"
    using c0 e3 by simp
  have "fetch_loop 4 P pid ca ts 17002000 ?s0 = Some (None, ?s4)"
    using e4 by (simp add: numeral_eq_Suc)
  then show ?thesis by simp
qed

text \<open>
  Claim C3. A fetch over \<open>[17000000, 17002000]\<close> by a fetcher with initial chunk size
  2000 and nothing cached, at an endpoint whose first \<open>getLogs\<close> call fails with
  \<open>block range too large\<close> and whose later calls succeed, returns (with any fuel of 4 or
  more), has issued exactly the four requests \<open>[17000000, 17001999]\<close>,
  \<open>[17000000, 17000999]\<close>, \<open>[17001000, 17001999]\<close>, \<open>[17002000, 17002000]\<close>, each for
  the contract and the topic list, and leaves 1000 as the provider's cached chunk size.
\<close>

theorem dynamic_range_shrink:
  assumes "initialChunkSize f = 2000"
    and "blockRangeLimits f (providerId f) = None"
    and "topic_hashes (decoder f) eventNames = Inr topics"
    and "\<forall>flt. getLogs (provider f) 0 flt = Inl (Error ''block range too large'')"
    and "\<forall>k flt. 0 < k \<longrightarrow> (\<exists>logs. getLogs (provider f) k flt = Inr logs)"
    and "4 \<le> fuel"
  shows "\<exists>r f' tr.
           fetchEvents fuel contractAddr eventNames 17000000 17002000 f = Some (r, f', tr) \<and>
           map window_of (getLogs_calls tr) =
             [(17000000, 17001999), (17000000, 17000999), (17001000, 17001999),
              (17002000, 17002000)] \<and>
           (\<forall>flt \<in> set (getLogs_calls tr).
              flt_address flt = contractAddr \<and> flt_topics flt = [topics]) \<and>
           blockRangeLimits f' (providerId f') = Some 1000 \<and>
           current_chunkSize f' = 1000"
proof -
  let ?s0 = "\<lparr>chunkSize = 2000, currentBlock = 17000000, allLogs = [],
              limits = blockRangeLimits f, requests = []\<rparr>"
  from shrink_scenario_loop[OF assms(4,5), of "providerId f" contractAddr topics "blockRangeLimits f"]
  obtain s where
    lp4: "fetch_loop 4 (provider f) (providerId f) contractAddr topics 17002000 ?s0 = Some (None, s)"
    and rq: "requests s =
               [\<lparr>flt_address = contractAddr, flt_topics = [topics], flt_fromBlock = 17000000, flt_toBlock = 17001999\<rparr>,
                \<lparr>flt_address = contractAddr, flt_topics = [topics], flt_fromBlock = 17000000, flt_toBlock = 17000999\<rparr>,
                \<lparr>flt_address = contractAddr, flt_topics = [topics], flt_fromBlock = 17001000, flt_toBlock = 17001999\<rparr>,
                \<lparr>flt_address = contractAddr, flt_topics = [topics], flt_fromBlock = 17002000, flt_toBlock = 17002000\<rparr>]"
    and lm: "limits s = (blockRangeLimits f)(providerId f \<mapsto> 1000)"
    by blast
  have "fetch_loop (4 + (fuel - 4)) (provider f) (providerId f) contractAddr topics 17002000 ?s0
          = Some (None, s)"
    using lp4 by (rule fetch_loop_fuel)
  then have lp: "fetch_loop fuel (provider f) (providerId f) contractAddr topics 17002000 ?s0
          = Some (None, s)"
    using assms(6) by simp
  have cur: "current_chunkSize f = 2000" using assms(1,2) by (simp add: current_chunkSize_def)
  obtain r f' reqs where en:
    "enrichWithTimestamps (allLogs s) (f\<lparr>blockRangeLimits := limits s\<rparr>) = (r, f', reqs)"
    by (cases "enrichWithTimestamps (allLogs s) (f\<lparr>blockRangeLimits := limits s\<rparr>)") auto
  have fe: "fetchEvents fuel contractAddr eventNames 17000000 17002000 f =
              Some (r, f', \<lparr>getLogs_calls = requests s, getBlock_calls = reqs\<rparr>)"
    using assms(3) lp cur en by (simp add: fetchEvents_def Let_def)
  have fr: "blockRangeLimits f' = limits s" "providerId f' = providerId f"
    using enrich_frame[OF en] by simp_all
  have "blockRangeLimits f' (providerId f') = Some 1000" using fr lm by simp
  moreover have "current_chunkSize f' = 1000" using fr lm by (simp add: current_chunkSize_def)
  moreover have "map window_of (requests s) =
             [(17000000, 17001999), (17000000, 17000999), (17001000, 17001999),
              (17002000, 17002000)]"
    using rq by (simp add: window_of_def)
  moreover have "\<forall>flt \<in> set (requests s). flt_address flt = contractAddr \<and> flt_topics flt = [topics]"
    using rq by simp
  ultimately show ?thesis using fe by simp
qed

lemma shrink_fetcher_facts:
  "initialChunkSize (new_EventFetcher too_large_once ''test-provider'' test_interface (Some 2000)) = 2000"
  "blockRangeLimits (new_EventFetcher too_large_once ''test-provider'' test_interface (Some 2000))
     (providerId (new_EventFetcher too_large_once ''test-provider'' test_interface (Some 2000))) = None"
  "topic_hashes (decoder (new_EventFetcher too_large_once ''test-provider'' test_interface (Some 2000)))
     [''Transfer''] = Inr [transferTopic]"
  "\<forall>flt. getLogs (provider (new_EventFetcher too_large_once ''test-provider'' test_interface (Some 2000)))
      0 flt = Inl (Error ''block range too large'')"
  "\<forall>k flt. 0 < k \<longrightarrow>
      (\<exists>logs. getLogs (provider (new_EventFetcher too_large_once ''test-provider'' test_interface
                  (Some 2000))) k flt = Inr logs)"
  by (simp_all add: new_EventFetcher_def too_large_once_def test_interface_def)

text \<open>
  The theorem of C3 at the mock endpoint and interface of the unit test.
\<close>

theorem dynamic_range_shrink_witness:
  "\<exists>r f' tr.
     fetchEvents 4 test_contract [''Transfer''] 17000000 17002000
       (new_EventFetcher too_large_once ''test-provider'' test_interface (Some 2000))
       = Some (r, f', tr) \<and>
     map window_of (getLogs_calls tr) =
       [(17000000, 17001999), (17000000, 17000999), (17001000, 17001999), (17002000, 17002000)] \<and>
     blockRangeLimits f' ''test-provider'' = Some 1000"
proof -
  let ?f = "new_EventFetcher too_large_once ''test-provider'' test_interface (Some 2000)"
  have fuel: "(4::nat) \<le> 4" by simp
  from dynamic_range_shrink[OF shrink_fetcher_facts fuel, of test_contract]
  obtain r f' tr where run:
    "fetchEvents 4 test_contract [''Transfer''] 17000000 17002000 ?f = Some (r, f', tr) \<and>
     map window_of (getLogs_calls tr) =
       [(17000000, 17001999), (17000000, 17000999), (17001000, 17001999), (17002000, 17002000)] \<and>
     (\<forall>flt \<in> set (getLogs_calls tr).
        flt_address flt = test_contract \<and> flt_topics flt = [ [transferTopic] ]) \<and>
     blockRangeLimits f' (providerId f') = Some 1000 \<and>
     current_chunkSize f' = 1000"
    by (elim exE)
  have "providerId f' = ''test-provider''"
    using fetchEvents_chunk[of 4 test_contract "[''Transfer'']" 17000000 17002000 ?f r f' tr] run
    by (simp add: current_chunkSize_def new_EventFetcher_def)
  then have lim: "blockRangeLimits f' ''test-provider'' = Some 1000" using run by simp
  show ?thesis
    by (rule exI[of _ r], rule exI[of _ f'], rule exI[of _ tr]) (simp add: run lim)
qed

lemma always_too_large_step:
  "chunkSize (snd (fetch_chunk always_too_large pid ca ts tb s)) = max (chunkSize s div 2) 100"
  "currentBlock (snd (fetch_chunk always_too_large pid ca ts tb s)) = currentBlock s"
  using too_large_is_range_error
  by (simp_all add: fetch_chunk_def Let_def always_too_large_def)

lemma trajectory_2000:
  assumes "chunkSize s0 = 2000"
  shows "map (\<lambda>n. chunkSize (((\<lambda>s. snd (fetch_chunk always_too_large pid ca ts tb s)) ^^ n) s0))
           [0..<8] = [2000, 1000, 500, 250, 125, 100, 100, 100]"
  using assms by (simp add: upt_rec numeral_eq_Suc always_too_large_step)

text \<open>
  Claim C4, amended: for a chunk size in force of at least 100. Over any sequence of
  fetches by one fetcher, and over each single fetch, the provider's chunk size in force
  (cached, or initial when nothing is cached) never grows and stays at least 100. A
  block range error sets the chunk size to \<open>max(floor(chunkSize / 2), 100)\<close>, caches it for
  the provider and leaves the cursor where it was. Under range errors only, the chunk
  size starting at 2000 runs 2000, 1000, 500, 250, 125, 100 and stays at 100.
\<close>

theorem chunk_size_floor:
  "(100 \<le> current_chunkSize f \<and> fetch_all fuel qs f = Some f' \<longrightarrow>
      100 \<le> current_chunkSize f' \<and> current_chunkSize f' \<le> current_chunkSize f) \<and>
   (100 \<le> current_chunkSize f \<and>
    fetchEvents fuel contractAddr eventNames fromBlock toBlock f = Some (r, f1, tr) \<longrightarrow>
      100 \<le> current_chunkSize f1 \<and> current_chunkSize f1 \<le> current_chunkSize f) \<and>
   (getLogs P (length (requests s))
       \<lparr>flt_address = contractAddr, flt_topics = [topics], flt_fromBlock = currentBlock s,
        flt_toBlock = min (currentBlock s + chunkSize s - 1) toBlock\<rparr> = Inl err \<and>
    isBlockRangeError err \<longrightarrow>
      (\<exists>s'. fetch_chunk P pid contractAddr topics toBlock s = (None, s') \<and>
            chunkSize s' = max (chunkSize s div 2) 100 \<and>
            currentBlock s' = currentBlock s \<and>
            limits s' pid = Some (chunkSize s'))) \<and>
   (chunkSize s0 = 2000 \<longrightarrow>
      map (\<lambda>n. chunkSize (((\<lambda>s. snd (fetch_chunk always_too_large pid contractAddr topics toBlock s)) ^^ n) s0))
        [0..<8] = [2000, 1000, 500, 250, 125, 100, 100, 100])"
proof (intro conjI impI)
  assume "100 \<le> current_chunkSize f \<and> fetch_all fuel qs f = Some f'"
  then show "100 \<le> current_chunkSize f'" "current_chunkSize f' \<le> current_chunkSize f"
    using fetch_all_chunk[of fuel qs f f'] by simp_all
next
  assume "100 \<le> current_chunkSize f \<and>
    fetchEvents fuel contractAddr eventNames fromBlock toBlock f = Some (r, f1, tr)"
  then show "100 \<le> current_chunkSize f1" "current_chunkSize f1 \<le> current_chunkSize f"
    using fetchEvents_chunk[of fuel contractAddr eventNames fromBlock toBlock f r f1 tr]
    by simp_all
next
  assume "getLogs P (length (requests s))
       \<lparr>flt_address = contractAddr, flt_topics = [topics], flt_fromBlock = currentBlock s,
        flt_toBlock = min (currentBlock s + chunkSize s - 1) toBlock\<rparr> = Inl err \<and>
    isBlockRangeError err"
  then show "\<exists>s'. fetch_chunk P pid contractAddr topics toBlock s = (None, s') \<and>
            chunkSize s' = max (chunkSize s div 2) 100 \<and>
            currentBlock s' = currentBlock s \<and>
            limits s' pid = Some (chunkSize s')"
    using fetch_chunk_range_error[of P s contractAddr topics toBlock err pid] by blast
next
  assume "chunkSize s0 = 2000"
  then show "map (\<lambda>n. chunkSize (((\<lambda>s. snd (fetch_chunk always_too_large pid contractAddr topics toBlock s)) ^^ n) s0))
        [0..<8] = [2000, 1000, 500, 250, 125, 100, 100, 100]"
    by (rule trajectory_2000)
qed

lemma small_batch_run:
  "fetchEvents 2 test_contract [''Transfer''] 17000000 17000050 small_batch_fetcher =
     Some (Inr [], small_batch_fetcher\<lparr>blockRangeLimits := [''test-provider'' \<mapsto> 100]\<rparr>,
           \<lparr>getLogs_calls =
              [\<lparr>flt_address = test_contract, flt_topics = [ [transferTopic] ],
                flt_fromBlock = 17000000, flt_toBlock = 17000009\<rparr>,
               \<lparr>flt_address = test_contract, flt_topics = [ [transferTopic] ],
                flt_fromBlock = 17000000, flt_toBlock = 17000050\<rparr>],
            getBlock_calls = []\<rparr>)"
  using too_large_is_range_error
  by (simp add: fetchEvents_def Let_def small_batch_fetcher_def new_EventFetcher_def
      current_chunkSize_def test_interface_def numeral_2_eq_2 fetch_chunk_def too_large_once_def
      enrichWithTimestamps_def)

text \<open>
  Claim C4 as stated fails for a configured chunk size below 100: with \<open>batch_size: 10\<close>
  the chunk size starts below 100, and one block range error raises it from 10 to 100.
\<close>

theorem chunk_size_floor_counterexample:
  "\<not> (100 \<le> current_chunkSize small_batch_fetcher) \<and>
   \<not> (current_chunkSize small_batch_after \<le> current_chunkSize small_batch_fetcher)"
proof -
  have a: "current_chunkSize small_batch_fetcher = 10"
    by (simp add: current_chunkSize_def small_batch_fetcher_def new_EventFetcher_def)
  have eq: "small_batch_after = small_batch_fetcher\<lparr>blockRangeLimits := [''test-provider'' \<mapsto> 100]\<rparr>"
    by (simp add: small_batch_after_def small_batch_run)
  have "current_chunkSize small_batch_after = 100"
    by (simp add: eq current_chunkSize_def small_batch_fetcher_def new_EventFetcher_def)
  then show ?thesis using a by simp
qed

lemma shrink_run:
  "fetchEvents 4 test_contract [''Transfer''] 17000000 17002000
     (new_EventFetcher too_large_once ''test-provider'' test_interface (Some 2000)) =
   Some (Inr [],
         (new_EventFetcher too_large_once ''test-provider'' test_interface (Some 2000))
           \<lparr>blockRangeLimits := [''test-provider'' \<mapsto> 1000]\<rparr>,
         \<lparr>getLogs_calls =
            [\<lparr>flt_address = test_contract, flt_topics = [ [transferTopic] ],
              flt_fromBlock = 17000000, flt_toBlock = 17001999\<rparr>,
             \<lparr>flt_address = test_contract, flt_topics = [ [transferTopic] ],
              flt_fromBlock = 17000000, flt_toBlock = 17000999\<rparr>,
             \<lparr>flt_address = test_contract, flt_topics = [ [transferTopic] ],
              flt_fromBlock = 17001000, flt_toBlock = 17001999\<rparr>,
             \<lparr>flt_address = test_contract, flt_topics = [ [transferTopic] ],
              flt_fromBlock = 17002000, flt_toBlock = 17002000\<rparr>],
          getBlock_calls = []\<rparr>)"
  using too_large_is_range_error
  by (simp add: fetchEvents_def Let_def new_EventFetcher_def
      current_chunkSize_def test_interface_def numeral_eq_Suc fetch_chunk_def too_large_once_def
      enrichWithTimestamps_def)

text \<open>
  The theorem of C4 at the fetch of the shrink scenario: the chunk size goes from 2000 to
  1000.
\<close>

theorem chunk_size_floor_witness:
  "100 \<le> current_chunkSize (new_EventFetcher too_large_once ''test-provider'' test_interface (Some 2000)) \<and>
   100 \<le> current_chunkSize
            ((new_EventFetcher too_large_once ''test-provider'' test_interface (Some 2000))
               \<lparr>blockRangeLimits := [''test-provider'' \<mapsto> 1000]\<rparr>) \<and>
   current_chunkSize
      ((new_EventFetcher too_large_once ''test-provider'' test_interface (Some 2000))
         \<lparr>blockRangeLimits := [''test-provider'' \<mapsto> 1000]\<rparr>)
     \<le> current_chunkSize (new_EventFetcher too_large_once ''test-provider'' test_interface (Some 2000))"
proof -
  let ?f = "new_EventFetcher too_large_once ''test-provider'' test_interface (Some 2000)"
  have h: "100 \<le> current_chunkSize ?f"
    by (simp add: current_chunkSize_def new_EventFetcher_def)
  note t = chunk_size_floor[where f = ?f and fuel = 4 and contractAddr = test_contract
             and eventNames = "[''Transfer'']" and fromBlock = 17000000 and toBlock = 17002000,
             THEN conjunct2, THEN conjunct1, rule_format]
  from t[OF conjI[OF h shrink_run] ] h show ?thesis by simp
qed

lemma fetch_chunk_no_logs:
  assumes "\<forall>k flt logs. getLogs P k flt = Inr logs \<longrightarrow> logs = []"
    and "fetch_chunk P pid ca ts tb s = (e, s')" and "allLogs s = []"
  shows "allLogs s' = []"
  using assms by (auto simp add: fetch_chunk_def Let_def split: sum.splits if_splits)

lemma fetch_loop_no_logs:
  assumes "\<forall>k flt logs. getLogs P k flt = Inr logs \<longrightarrow> logs = []"
    and "fetch_loop n P pid ca ts tb s = Some (e, s')" and "allLogs s = []"
  shows "allLogs s' = []"
  using assms(2,3)
proof (induction n arbitrary: s)
  case 0
  then show ?case by (auto split: if_splits)
next
  case (Suc n)
  show ?case
  proof (cases "currentBlock s \<le> tb")
    case False
    then show ?thesis using Suc.prems by auto
  next
    case True
    obtain e1 s1 where fc: "fetch_chunk P pid ca ts tb s = (e1, s1)"
      by (cases "fetch_chunk P pid ca ts tb s")
    have a1: "allLogs s1 = []" using fetch_chunk_no_logs[OF assms(1) fc Suc.prems(2)] .
    show ?thesis
    proof (cases e1)
      case (Some err)
      then have "s' = s1" using Suc.prems(1) True fc by simp
      then show ?thesis using a1 by simp
    next
      case None
      then have "fetch_loop n P pid ca ts tb s1 = Some (e, s')"
        using Suc.prems(1) True fc by simp
      from Suc.IH[OF this a1] show ?thesis .
    qed
  qed
qed

lemma fetchEvents_no_logs:
  assumes "\<forall>k flt logs. getLogs (provider f) k flt = Inr logs \<longrightarrow> logs = []"
    and "fetchEvents fuel ca names fb tb f = Some (r, f', tr)"
  shows "getBlock_calls tr = [] \<and> (\<forall>evs. r = Inr evs \<longrightarrow> evs = [])"
proof (cases "topic_hashes (decoder f) names")
  case (Inl e)
  then show ?thesis using assms(2) by (auto simp add: fetchEvents_def Let_def)
next
  case (Inr topics)
  let ?s0 = "\<lparr>chunkSize = current_chunkSize f, currentBlock = fb, allLogs = [],
              limits = blockRangeLimits f, requests = []\<rparr>"
  from assms(2) Inr obtain e s where
    lp: "fetch_loop fuel (provider f) (providerId f) ca topics tb ?s0 = Some (e, s)"
    by (auto simp add: fetchEvents_def Let_def split: option.splits)
  have al: "allLogs s = []" using fetch_loop_no_logs[OF assms(1) lp] by simp
  show ?thesis
  proof (cases e)
    case (Some err)
    then show ?thesis using assms(2) Inr lp by (auto simp add: fetchEvents_def Let_def)
  next
    case None
    then show ?thesis using assms(2) Inr lp al
      by (auto simp add: fetchEvents_def Let_def enrichWithTimestamps_def)
  qed
qed

lemma commit_empty:
  assumes "updateSyncStateAndInsertEvents env addr cid blk [] a = (r, a')"
  shows "map_option events (db a') = map_option events (db a) \<and>
         (r = Inr () \<longrightarrow>
            (\<exists>d' row. db a' = Some d' \<and> sync_state d' addr = Some row \<and> last_block row = blk)) \<and>
         ((\<exists>e. r = Inl e) \<longrightarrow> a' = a)"
  using assms
  by (auto simp add: updateSyncStateAndInsertEvents_def ensureDb_def updateTransaction_def
      Let_def upsert_sync_def split: option.splits)

lemma catch_frame:
  assumes "indexBlocks_catch env info err ix tr = (r, ix', tr')"
  shows "storage ix' = storage ix \<and> tr' = tr \<and> (\<exists>e. r = Inl e)"
  using assms by (auto simp add: indexBlocks_catch_def split: prod.splits sum.splits)

lemma new_fetcher_provider: "provider (new_EventFetcher P pid dec c) = P"
  by (simp add: new_EventFetcher_def)

text \<open>
  Claim C9, amended: the sync state is still written. When every successful \<open>getLogs\<close>
  call returns no logs, an iteration of \<open>indexBlocks\<close> makes no \<open>getBlock\<close> call and
  leaves the rows of \<open>events\<close> as they were. When the iteration succeeds it has
  upserted \<open>sync_state\<close>, whose \<open>last_block\<close> for the contract is now the end of the
  window; when it fails the store is unchanged.
\<close>

theorem empty_fetch_effects:
  assumes "\<forall>u k flt logs. getLogs (rpc env u) k flt = Inr logs \<longrightarrow> logs = []"
    and "indexBlocks fuel env contractConfig fromBlock toBlock ix = Some (r, ix', tr)"
  shows "getBlock_calls tr = [] \<and>
         map_option events (db (storage ix')) = map_option events (db (storage ix)) \<and>
         (r = Inr () \<longrightarrow>
            (\<exists>d' row. db (storage ix') = Some d' \<and>
               sync_state d' (toLowerCase (cc_address contractConfig)) = Some row \<and>
               last_block row = toBlock)) \<and>
         ((\<exists>e. r = Inl e) \<longrightarrow> storage ix' = storage ix)"
proof -
  let ?addr = "toLowerCase (cc_address contractConfig)"
  let ?cid = "CHAIN_IDS (chain (config ix))"
  obtain g pool1 where gp: "getProvider (date_now env 0) (providerPool ix) = (g, pool1)"
    by (cases "getProvider (date_now env 0) (providerPool ix)")
  show ?thesis
  proof (cases g)
    case (Inl e)
    then show ?thesis using assms(2) gp
      by (auto simp add: indexBlocks_def Let_def no_trace_def)
  next
    case (Inr info)
    let ?ix1 = "ix\<lparr>providerPool := pool1\<rparr>"
    show ?thesis
    proof (cases "getABI env ?addr ?cid (cc_abi contractConfig)")
      case (Inl e)
      then have "indexBlocks_catch env info e ?ix1 no_trace = (r, ix', tr)"
        using assms(2) gp Inr by (simp add: indexBlocks_def Let_def)
      from catch_frame[OF this] show ?thesis by (auto simp add: no_trace_def)
    next
      case iface: (Inr iface)
      let ?f = "new_EventFetcher (rpc env (info_url info)) (info_id info) iface
                  (Some (batch_size (options (config ix))))"
      from assms(2) gp Inr iface obtain fr f' ftr where
        fe: "fetchEvents fuel ?addr (cc_events contractConfig) fromBlock toBlock ?f = Some (fr, f', ftr)"
        by (auto simp add: indexBlocks_def Let_def split: option.splits)
      have nl: "\<forall>k flt logs. getLogs (provider ?f) k flt = Inr logs \<longrightarrow> logs = []"
        using assms(1) by (simp add: new_fetcher_provider)
      from fetchEvents_no_logs[OF nl fe]
      have gb: "getBlock_calls ftr = []" and ev: "\<forall>evs. fr = Inr evs \<longrightarrow> evs = []" by simp_all
      show ?thesis
      proof (cases fr)
        case (Inl e)
        then have "indexBlocks_catch env info e ?ix1 ftr = (r, ix', tr)"
          using assms(2) gp Inr iface fe by (simp add: indexBlocks_def Let_def)
        from catch_frame[OF this] gb show ?thesis by auto
      next
        case evs: (Inr evs)
        then have evs_nil: "evs = []" using ev by simp
        obtain rs pool2 where rs: "reportSuccess (date_now env 1) (info_id info) pool1 = (rs, pool2)"
          by (cases "reportSuccess (date_now env 1) (info_id info) pool1")
        show ?thesis
        proof (cases rs)
          case (Inl e)
          then have "indexBlocks_catch env info e (ix\<lparr>providerPool := pool2\<rparr>) ftr = (r, ix', tr)"
            using assms(2) gp Inr iface fe evs rs by (simp add: indexBlocks_def Let_def)
          from catch_frame[OF this] gb show ?thesis by auto
        next
          case ok: (Inr u)
          let ?ix2 = "ix\<lparr>providerPool := pool2\<rparr>"
          obtain cr st' where cm:
            "updateSyncStateAndInsertEvents (store env) ?addr ?cid toBlock [] (storage ix) = (cr, st')"
            by (cases "updateSyncStateAndInsertEvents (store env) ?addr ?cid toBlock [] (storage ix)")
          note ce = commit_empty[OF cm]
          show ?thesis
          proof (cases cr)
            case (Inl e)
            then have st: "st' = storage ix" using ce by auto
            have "indexBlocks_catch env info e (?ix2\<lparr>storage := st'\<rparr>) ftr = (r, ix', tr)"
              using assms(2) gp Inr iface fe evs evs_nil rs ok cm Inl
              by (simp add: indexBlocks_def Let_def)
            from catch_frame[OF this] gb st show ?thesis by auto
          next
            case cok: (Inr u')
            then have "r = Inr () \<and> ix' = ?ix2\<lparr>storage := st'\<rparr> \<and> tr = ftr"
              using assms(2) gp Inr iface fe evs evs_nil rs ok cm
              by (simp add: indexBlocks_def Let_def)
            then show ?thesis using ce cok gb by auto
          qed
        qed
      qed
    qed
  qed
qed

lemma uni_address_lower: "toLowerCase (cc_address uni_contract) = test_contract"
  by (simp add: uni_contract_def test_contract_def toLowerCase_def toLowerChar_def)

lemma single_pool_eval:
  "heap single_pool = [new_entry \<lparr>cfg_url = ''http://localhost:8545'', cfg_priority = 1\<rparr>]"
  "providerList single_pool = [0]"
  "providers single_pool ''provider-1860031575'' = Some 0"
  "roundRobinIndex single_pool = 0"
  "failureThreshold single_pool = 3"
  by (simp_all add: single_pool_def new_ProviderPool_def Let_def register_all_def new_entry_def
      provider_ids)

lemma single_pool_checkout:
  "getProvider now single_pool =
     (Inr \<lparr>info_id = ''provider-1860031575'', info_url = ''http://localhost:8545'',
           info_priority = 1\<rparr>,
      single_pool\<lparr>roundRobinIndex := 1\<rparr>)"
  by (simp add: getProvider_def single_pool_eval Let_def new_entry_def weightedList_def info_of_def
      provider_ids)

lemma quiet_fetch:
  "fetchEvents (Suc 0) test_contract [''Transfer''] 19000000 19000088
     (new_EventFetcher quiet_rpc ''provider-1860031575'' test_interface (Some 2000)) =
   Some (Inr [], new_EventFetcher quiet_rpc ''provider-1860031575'' test_interface (Some 2000),
         \<lparr>getLogs_calls =
            [\<lparr>flt_address = test_contract, flt_topics = [ [transferTopic] ],
              flt_fromBlock = 19000000, flt_toBlock = 19000088\<rparr>],
          getBlock_calls = []\<rparr>)"
  by (simp add: fetchEvents_def Let_def new_EventFetcher_def current_chunkSize_def
      test_interface_def fetch_chunk_def quiet_rpc_def enrichWithTimestamps_def)

lemma quiet_run_eval:
  "indexBlocks 1 quiet_env uni_contract 19000000 19000088 quiet_indexer =
     Some (Inr (),
           quiet_indexer
             \<lparr>providerPool := snd (reportSuccess 1700000000001 ''provider-1860031575''
                                      (single_pool\<lparr>roundRobinIndex := 1\<rparr>)),
              storage := \<lparr>db = Some \<lparr>events = [],
                                      sync_state = [test_contract \<mapsto>
                                        \<lparr>chain_id = 1, last_block = 19000088,
                                         last_sync = 1700000000, status = ''active''\<rparr>]\<rparr>\<rparr>\<rparr>,
           \<lparr>getLogs_calls =
              [\<lparr>flt_address = test_contract, flt_topics = [ [transferTopic] ],
                flt_fromBlock = 19000000, flt_toBlock = 19000088\<rparr>],
            getBlock_calls = []\<rparr>)"
proof -
  define P2 where "P2 = snd (reportSuccess 1700000000001 ''provider-1860031575''
                               (single_pool\<lparr>roundRobinIndex := Suc 0\<rparr>))"
  have "fst (reportSuccess 1700000000001 ''provider-1860031575''
                   (single_pool\<lparr>roundRobinIndex := Suc 0\<rparr>)) = Inr ()"
    by (simp add: reportSuccess_def single_pool_eval)
  then have rs: "reportSuccess 1700000000001 ''provider-1860031575''
                   (single_pool\<lparr>roundRobinIndex := Suc 0\<rparr>) = (Inr (), P2)"
    by (simp add: P2_def prod_eq_iff)
  have cm: "updateSyncStateAndInsertEvents quiet_store test_contract 1 19000088 []
              (init_adapter None) =
            (Inr (), \<lparr>db = Some \<lparr>events = [],
                                 sync_state = [test_contract \<mapsto>
                                   \<lparr>chain_id = 1, last_block = 19000088,
                                    last_sync = 1700000000, status = ''active''\<rparr>]\<rparr>\<rparr>)"
    by (simp add: updateSyncStateAndInsertEvents_def ensureDb_def updateTransaction_def Let_def
        no_faults_def init_adapter_def init_database_def upsert_sync_def quiet_store_def)
  have ce: "cc_events uni_contract = [''Transfer'']" "cc_abi uni_contract = None"
    by (simp_all add: uni_contract_def)
  show ?thesis
    by (simp add: indexBlocks_def Let_def quiet_indexer_def test_indexer_def test_config_def
        quiet_env_def single_pool_checkout uni_address_lower quiet_fetch cm ce rs)
qed

lemma quiet_run_value:
  "quiet_run =
     (Inr (),
      quiet_indexer
        \<lparr>providerPool := snd (reportSuccess 1700000000001 ''provider-1860031575''
                                 (single_pool\<lparr>roundRobinIndex := 1\<rparr>)),
         storage := \<lparr>db = Some \<lparr>events = [],
                                 sync_state = [test_contract \<mapsto>
                                   \<lparr>chain_id = 1, last_block = 19000088,
                                    last_sync = 1700000000, status = ''active''\<rparr>]\<rparr>\<rparr>\<rparr>,
      \<lparr>getLogs_calls =
         [\<lparr>flt_address = test_contract, flt_topics = [ [transferTopic] ],
           flt_fromBlock = 19000000, flt_toBlock = 19000088\<rparr>],
       getBlock_calls = []\<rparr>)"
  by (simp only: quiet_run_def quiet_run_eval option.sel)

lemma quiet_run_some:
  "indexBlocks 1 quiet_env uni_contract 19000000 19000088 quiet_indexer = Some quiet_run"
  by (simp only: quiet_run_def quiet_run_eval option.sel)

text \<open>
  The theorem of C9 at one iteration of the quiet indexer on a fresh store.
\<close>

theorem empty_fetch_effects_witness:
  "indexBlocks 1 quiet_env uni_contract 19000000 19000088 quiet_indexer = Some quiet_run \<and>
   getBlock_calls (snd (snd quiet_run)) = [] \<and>
   map_option events (db (storage (fst (snd quiet_run)))) = Some []"
proof -
  have h1: "\<forall>u k flt logs. getLogs (rpc quiet_env u) k flt = Inr logs \<longrightarrow> logs = []"
    by (simp add: quiet_env_def quiet_rpc_def)
  have h2: "indexBlocks 1 quiet_env uni_contract 19000000 19000088 quiet_indexer =
              Some (fst quiet_run, fst (snd quiet_run), snd (snd quiet_run))"
    using quiet_run_some by simp
  have e0: "map_option events (db (storage quiet_indexer)) = Some []"
    by (simp add: quiet_indexer_def test_indexer_def init_adapter_def init_database_def)
  from empty_fetch_effects[OF h1 h2] e0
  have "getBlock_calls (snd (snd quiet_run)) = [] \<and>
        map_option events (db (storage (fst (snd quiet_run)))) = Some []"
    by simp
  then show ?thesis using quiet_run_some by blast
qed

text \<open>
  Claim C9 as stated fails: in the iteration of the quiet indexer the only \<open>getLogs\<close>
  call returns no logs, and the store is written all the same; \<open>getLastSyncedBlock\<close>
  answered \<open>null\<close> before and answers 19000088 after.
\<close>

theorem empty_fetch_effects_counterexample:
  "fst quiet_run = Inr () \<and>
   getLogs_calls (snd (snd quiet_run)) =
     [\<lparr>flt_address = test_contract, flt_topics = [ [transferTopic] ],
       flt_fromBlock = 19000000, flt_toBlock = 19000088\<rparr>] \<and>
   getLogs quiet_rpc 0 \<lparr>flt_address = test_contract, flt_topics = [ [transferTopic] ],
       flt_fromBlock = 19000000, flt_toBlock = 19000088\<rparr> = Inr [] \<and>
   storage (fst (snd quiet_run)) \<noteq> storage quiet_indexer \<and>
   getLastSyncedBlock quiet_store test_contract (storage quiet_indexer) = Inr None \<and>
   getLastSyncedBlock quiet_store test_contract (storage (fst (snd quiet_run)))
     = Inr (Some 19000088)"
  by (simp add: quiet_run_value quiet_indexer_def test_indexer_def init_adapter_def
      init_database_def getLastSyncedBlock_def ensureDb_def no_faults_def quiet_rpc_def
      quiet_store_def)

text \<open>
  Claim C6. With \<open>from_block\<close> configured, \<open>watchContract\<close> reads the stored sync
  state of the lower-cased address: when a \<open>last_block\<close> is stored and is at least
  \<open>from_block\<close>, indexing starts at \<open>last_block + 1\<close>, otherwise at \<open>from_block\<close>. An
  error of the storage read is passed on.
\<close>

theorem start_block_selection:
  assumes "cc_from_block contractConfig = Some from_block"
  shows
    "(db (storage ix) = Some d \<and> fault (store env) 0 = None \<and> fault (store env) 1 = None \<longrightarrow>
        watchContract_currentBlock env contractConfig ix =
          (Inr (case sync_state d (toLowerCase (cc_address contractConfig)) of
                  Some r \<Rightarrow> if last_block r \<ge> from_block then last_block r + 1 else from_block
                | None \<Rightarrow> from_block),
           ix)) \<and>
     (\<forall>e. getLastSyncedBlock (store env) (toLowerCase (cc_address contractConfig)) (storage ix) = Inl e
          \<longrightarrow> watchContract_currentBlock env contractConfig ix = (Inl e, ix))"
  using assms
  by (auto simp add: watchContract_currentBlock_def getLastSyncedBlock_def ensureDb_def Let_def
      split: option.splits)

text \<open>
  The theorem of C6 at a contract configured from block 19000000: with block 19000050
  stored it resumes at 19000051, and on a fresh store it starts at 19000000.
\<close>

theorem start_block_selection_witness:
  "cc_from_block uni_contract = Some 19000000 \<and>
   watchContract_currentBlock quiet_env uni_contract (test_indexer synced_adapter) =
     (Inr 19000051, test_indexer synced_adapter) \<and>
   watchContract_currentBlock quiet_env uni_contract quiet_indexer =
     (Inr 19000000, quiet_indexer)"
proof -
  have h: "cc_from_block uni_contract = Some 19000000" by (simp add: uni_contract_def)
  have nf: "fault (store quiet_env) 0 = None \<and> fault (store quiet_env) 1 = None"
    by (simp add: quiet_env_def no_faults_def quiet_store_def)
  let ?d1 = "\<lparr>events = [],
              sync_state = [test_contract \<mapsto>
                \<lparr>chain_id = 1, last_block = 19000050, last_sync = 1700000000,
                 status = ''active''\<rparr>]\<rparr>"
  have d1: "db (storage (test_indexer synced_adapter)) = Some ?d1"
    by (simp add: test_indexer_def synced_adapter_def)
  have d2: "db (storage quiet_indexer) = Some init_database"
    by (simp add: quiet_indexer_def test_indexer_def init_adapter_def)
  note t1 = start_block_selection[OF h, where ix = "test_indexer synced_adapter" and d = ?d1
              and env = quiet_env, THEN conjunct1, rule_format]
  note t2 = start_block_selection[OF h, where ix = quiet_indexer and d = init_database
              and env = quiet_env, THEN conjunct1, rule_format]
  from t1[OF conjI[OF d1 nf] ] t2[OF conjI[OF d2 nf] ] h
  show ?thesis by (simp add: uni_address_lower init_database_def)
qed

end
